theory Spec2Isabelle
  imports Main "HOL-Library.AList"
begin

section \<open>Python values and the log\<close>

text \<open>
  The store is a Python \<^verbatim>\<open>dict\<close> from integers to integers. A \<^verbatim>\<open>dict\<close> keeps its keys
  unique and in insertion order, and the order decides the bytes \<^verbatim>\<open>pickle\<close> writes, so the
  model is an association list: \<^verbatim>\<open>d[k] = v\<close> replaces the value in place when the key is
  there and appends the pair otherwise (\<^const>\<open>AList.update\<close>), \<^verbatim>\<open>del d[k]\<close> drops the
  pair (\<^const>\<open>AList.delete\<close>) and raises \<^verbatim>\<open>KeyError\<close> when the key is missing.
\<close>

type_synonym pydict = "(int \<times> int) list"

datatype exn = KeyError | ValueError | RuntimeError | AttributeError | FileNotFoundError
  | PermissionError | EOFError | UnpicklingError | OSError | OverflowError | WinError nat

datatype pyval = IntV int | StrV string

definition dict_getitem :: "pydict \<Rightarrow> int \<Rightarrow> exn + int" where
  "dict_getitem d k = (case map_of d k of None \<Rightarrow> Inl KeyError | Some v \<Rightarrow> Inr v)"

definition dict_setitem :: "pydict \<Rightarrow> int \<Rightarrow> int \<Rightarrow> exn + pydict" where
  "dict_setitem d k v = Inr (AList.update k v d)"

definition dict_delitem :: "pydict \<Rightarrow> int \<Rightarrow> exn + pydict" where
  "dict_delitem d k =
     (if k \<in> fst ` set d then Inr (AList.delete k d) else Inl KeyError)"

text \<open>
  The \<^verbatim>\<open>logging\<close> module appends one record per call to \<^verbatim>\<open>log/client.log\<close>. A record
  is modelled by its level, its message template and its integer arguments (arguments
  that are dictionaries, paths or exception texts are left out).
\<close>

datatype level = DEBUG | INFO | WARNING | ERROR

type_synonym log_record = "level \<times> string \<times> int list"

section \<open>\<^verbatim>\<open>Database\<close>: the in-memory store\<close>

text \<open>
  \<^verbatim>\<open>src/Database.py\<close>; \<^verbatim>\<open>src/winapi.py\<close> holds a second copy of the same class, line for
  line. The object is its field \<^verbatim>\<open>DB\<close>; the log is the module-level logger.
\<close>

record db =
  DB :: pydict
  logged :: "log_record list"

definition logging :: "level \<Rightarrow> string \<Rightarrow> int list \<Rightarrow> 'a db_scheme \<Rightarrow> 'a db_scheme" where
  "logging lv msg args s = s\<lparr>logged := logged s @ [(lv, msg, args)]\<rparr>"

definition Database_init :: "pydict \<Rightarrow> 'a db_scheme \<Rightarrow> 'a db_scheme" where
  "Database_init d s =
     logging INFO ''Database initialized with data: %s'' [] (s\<lparr>DB := d\<rparr>)"

definition set_value :: "int \<Rightarrow> int \<Rightarrow> 'a db_scheme \<Rightarrow> bool \<times> 'a db_scheme" where
  "set_value key val s =
     (case dict_setitem (DB s) key val of
        Inr d \<Rightarrow> (True, logging INFO ''Value set: %d -> %d'' [key, val] (s\<lparr>DB := d\<rparr>))
      | Inl e \<Rightarrow> (False, logging ERROR ''Error setting value for key %d: %s'' [key] s))"

definition get_value :: "int \<Rightarrow> 'a db_scheme \<Rightarrow> (exn + pyval) \<times> 'a db_scheme" where
  "get_value key s =
     (case dict_getitem (DB s) key of
        Inr v \<Rightarrow> (Inr (IntV v), logging INFO ''Fetched value for key %d: %d'' [key, v] s)
      | Inl KeyError \<Rightarrow>
          (Inr (StrV ''doesn't exist''),
           logging WARNING ''Key %d not found in the database.'' [key] s)
      | Inl e \<Rightarrow> (Inl e, s))"

definition del_value :: "int \<Rightarrow> 'a db_scheme \<Rightarrow> (exn + bool) \<times> 'a db_scheme" where
  "del_value key s =
     (case dict_delitem (DB s) key of
        Inr d \<Rightarrow> (Inr True, logging INFO ''Deleted key %d from database.'' [key] (s\<lparr>DB := d\<rparr>))
      | Inl KeyError \<Rightarrow>
          (Inr False, logging WARNING ''Key %d not found for deletion.'' [key] s)
      | Inl e \<Rightarrow> (Inl e, s))"

section \<open>The snapshot file\<close>

text \<open>
  Both persistence classes keep the whole mapping in the one file \<^verbatim>\<open>database.pickle\<close>.
  The file is absent or holds bytes: no bytes at all, the pickle of a mapping, or bytes
  that \<^verbatim>\<open>pickle\<close> rejects. (\<^verbatim>\<open>pickle.loads\<close> stops at the end of the first pickle, so
  \<open>Pickled d\<close> stands for every byte string that unpickles to \<open>d\<close>.) Opening can fail
  for reasons outside the program, which the two permission flags stand for.
\<close>

datatype blob = Empty | Pickled pydict | Garbage

record filesystem =
  content :: "blob option"
  readable :: bool
  writable :: bool

definition os_path_exists :: "filesystem \<Rightarrow> bool" where
  "os_path_exists dk \<longleftrightarrow> content dk \<noteq> None"

definition pickle_load :: "blob \<Rightarrow> exn + pydict" where
  "pickle_load b =
     (case b of Empty \<Rightarrow> Inl EOFError | Garbage \<Rightarrow> Inl UnpicklingError | Pickled d \<Rightarrow> Inr d)"

text \<open>\<^verbatim>\<open>open(path, 'rb')\<close> and \<^verbatim>\<open>open(path, 'wb')\<close> followed by \<^verbatim>\<open>pickle.dump\<close>.\<close>

definition open_rb :: "filesystem \<Rightarrow> exn + blob" where
  "open_rb dk =
     (case content dk of
        None \<Rightarrow> Inl FileNotFoundError
      | Some b \<Rightarrow> if readable dk then Inr b else Inl PermissionError)"

definition open_wb_dump :: "pydict \<Rightarrow> filesystem \<Rightarrow> exn + filesystem" where
  "open_wb_dump d dk =
     (if writable dk then Inr (dk\<lparr>content := Some (Pickled d)\<rparr>) else Inl PermissionError)"

text \<open>
  \<^verbatim>\<open>win32file.CreateFile\<close> with \<^verbatim>\<open>CREATE_NEW\<close> (error 80 when the file exists) and with
  \<^verbatim>\<open>OPEN_EXISTING\<close> (error 2 when it does not); error 5 is a refused access.
  \<^verbatim>\<open>WriteFile\<close> on the fresh handle writes the pickle from offset 0.
\<close>

definition CreateFile_new :: "filesystem \<Rightarrow> exn + filesystem" where
  "CreateFile_new dk =
     (if content dk \<noteq> None then Inl (WinError 80)
      else if writable dk then Inr (dk\<lparr>content := Some Empty\<rparr>)
      else Inl (WinError 5))"

definition CreateFile_read :: "filesystem \<Rightarrow> exn + blob" where
  "CreateFile_read dk =
     (case content dk of
        None \<Rightarrow> Inl (WinError 2)
      | Some b \<Rightarrow> if readable dk then Inr b else Inl (WinError 5))"

definition CreateFile_write :: "pydict \<Rightarrow> filesystem \<Rightarrow> exn + filesystem" where
  "CreateFile_write d dk =
     (case content dk of
        None \<Rightarrow> Inl (WinError 2)
      | Some b \<Rightarrow> if writable dk then Inr (dk\<lparr>content := Some (Pickled d)\<rparr>)
                  else Inl (WinError 5))"

section \<open>\<^verbatim>\<open>FileDatabase\<close> of \<^verbatim>\<open>src/file_Database.py\<close>\<close>

record fdb = db +
  fs :: filesystem

definition save_to_file :: "'a fdb_scheme \<Rightarrow> 'a fdb_scheme" where
  "save_to_file s =
     (case open_wb_dump (DB s) (fs s) of
        Inr dk \<Rightarrow> logging INFO ''Database saved to file: %s'' [] (s\<lparr>fs := dk\<rparr>)
      | Inl e \<Rightarrow> logging ERROR ''Error saving database to file: %s'' [] s)"

text \<open>
  The body of the \<^verbatim>\<open>try\<close> in \<^verbatim>\<open>load_from_file\<close>: open the file, unpickle it. Any
  exception of either step ends in the \<^verbatim>\<open>except\<close> branch, before \<^verbatim>\<open>self.DB\<close> is
  assigned.
\<close>

definition pickle_read :: "filesystem \<Rightarrow> exn + pydict" where
  "pickle_read dk =
     (case open_rb dk of
        Inl e \<Rightarrow> Inl e
      | Inr b \<Rightarrow> pickle_load b)"

definition load_from_file :: "'a fdb_scheme \<Rightarrow> 'a fdb_scheme" where
  "load_from_file s =
     (case pickle_read (fs s) of
        Inr d \<Rightarrow> logging INFO ''Database loaded from file: %s'' [] (s\<lparr>DB := d\<rparr>)
      | Inl e \<Rightarrow> logging ERROR ''Error loading database from file: %s'' [] s)"

text \<open>
  The constructor: \<^verbatim>\<open>super().__init__(db)\<close> stores the initial mapping, and the file is
  loaded over it only if it exists. \<open>FileDatabase\<close> is the constructor call in an
  environment with the given file and log; the new object's \<^verbatim>\<open>DB\<close> is assigned before
  it is ever read.
\<close>

definition FileDatabase_init :: "pydict \<Rightarrow> 'a fdb_scheme \<Rightarrow> 'a fdb_scheme" where
  "FileDatabase_init d s =
     (let s = Database_init d s;
          s = (if os_path_exists (fs s) then load_from_file s else s)
      in logging INFO ''File database initialized with file path: %s'' [] s)"

definition FileDatabase :: "pydict \<Rightarrow> filesystem \<Rightarrow> log_record list \<Rightarrow> fdb" where
  "FileDatabase d dk lg = FileDatabase_init d \<lparr>DB = [], logged = lg, fs = dk\<rparr>"

definition FileDatabase_set_value :: "int \<Rightarrow> int \<Rightarrow> 'a fdb_scheme \<Rightarrow> bool \<times> 'a fdb_scheme" where
  "FileDatabase_set_value key val s =
     (let s = load_from_file s;
          (success, s) = set_value key val s
      in (success, if success then save_to_file s else s))"

definition FileDatabase_get_value :: "int \<Rightarrow> 'a fdb_scheme \<Rightarrow> (exn + pyval) \<times> 'a fdb_scheme" where
  "FileDatabase_get_value key s = (let s = load_from_file s in get_value key s)"

definition FileDatabase_del_value :: "int \<Rightarrow> 'a fdb_scheme \<Rightarrow> (exn + bool) \<times> 'a fdb_scheme" where
  "FileDatabase_del_value key s =
     (let s = load_from_file s in
      case del_value key s of
        (Inl e, s) \<Rightarrow> (Inl e, s)
      | (Inr success, s) \<Rightarrow> (Inr success, if success then save_to_file s else s))"

section \<open>\<^verbatim>\<open>FileDatabase\<close> of \<^verbatim>\<open>src/winapi.py\<close>\<close>

definition win_save_to_file :: "'a fdb_scheme \<Rightarrow> 'a fdb_scheme" where
  "win_save_to_file s =
     (case CreateFile_write (DB s) (fs s) of
        Inr dk \<Rightarrow> logging INFO ''Database saved to file: %s'' [] (s\<lparr>fs := dk\<rparr>)
      | Inl e \<Rightarrow> logging ERROR ''Error saving database to file: %s'' [] s)"

text \<open>A file of size 0 is read as the empty mapping; nothing is unpickled then.\<close>

definition win_read :: "filesystem \<Rightarrow> exn + pydict" where
  "win_read dk =
     (case CreateFile_read dk of
        Inl e \<Rightarrow> Inl e
      | Inr b \<Rightarrow> if b \<noteq> Empty then pickle_load b else Inr [])"

definition win_load_from_file :: "'a fdb_scheme \<Rightarrow> 'a fdb_scheme" where
  "win_load_from_file s =
     (case win_read (fs s) of
        Inr d \<Rightarrow> logging INFO ''Database loaded from file: %s'' [] (s\<lparr>DB := d\<rparr>)
      | Inl e \<Rightarrow> logging ERROR ''Error loading database from file: %s'' [] s)"

text \<open>
  The constructor never reads its argument \<^verbatim>\<open>db\<close>. It creates the file with the pickle
  of the empty mapping when the file is absent (only a \<^verbatim>\<open>pywintypes.error\<close> is caught
  there), loads the file, and hands \<^verbatim>\<open>self.DB\<close> to the base constructor: when the load
  has failed that attribute was never assigned and reading it raises
  \<^verbatim>\<open>AttributeError\<close>.
\<close>

definition win_create_if_absent :: "'a fdb_scheme \<Rightarrow> exn + 'a fdb_scheme" where
  "win_create_if_absent s =
     (case CreateFile_new (fs s) of
        Inr dk \<Rightarrow>
          (case open_wb_dump [] dk of
             Inr dk' \<Rightarrow> Inr (s\<lparr>fs := dk'\<rparr>)
           | Inl e \<Rightarrow> Inl e)
      | Inl e \<Rightarrow>
          if e = WinError 80 then Inr s
          else Inr (logging ERROR ''Error creating file: %s'' [] s))"

definition win_FileDatabase_init :: "pydict \<Rightarrow> 'a fdb_scheme \<Rightarrow> exn + 'a fdb_scheme" where
  "win_FileDatabase_init d s =
     (case win_create_if_absent s of
        Inl e \<Rightarrow> Inl e
      | Inr s \<Rightarrow>
          (case win_read (fs s) of
             Inl e \<Rightarrow> Inl AttributeError
           | Inr _ \<Rightarrow>
               (let s = win_load_from_file s;
                    s = Database_init (DB s) s
                in Inr (logging INFO ''File database initialized with data: %s'' [] s))))"

definition win_FileDatabase :: "pydict \<Rightarrow> filesystem \<Rightarrow> log_record list \<Rightarrow> exn + fdb" where
  "win_FileDatabase d dk lg = win_FileDatabase_init d \<lparr>DB = [], logged = lg, fs = dk\<rparr>"

definition win_set_value :: "int \<Rightarrow> int \<Rightarrow> 'a fdb_scheme \<Rightarrow> bool \<times> 'a fdb_scheme" where
  "win_set_value key val s =
     (let s = win_load_from_file s;
          (success, s) = set_value key val s
      in (success, if success then win_save_to_file s else s))"

definition win_get_value :: "int \<Rightarrow> 'a fdb_scheme \<Rightarrow> (exn + pyval) \<times> 'a fdb_scheme" where
  "win_get_value key s = (let s = win_load_from_file s in get_value key s)"

definition win_del_value :: "int \<Rightarrow> 'a fdb_scheme \<Rightarrow> (exn + bool) \<times> 'a fdb_scheme" where
  "win_del_value key s =
     (let s = win_load_from_file s in
      case del_value key s of
        (Inl e, s) \<Rightarrow> (Inl e, s)
      | (Inr success, s) \<Rightarrow> (Inr success, if success then win_save_to_file s else s))"

section \<open>\<^verbatim>\<open>SynchronizedDatabase\<close> of \<^verbatim>\<open>src/sync_Database.py\<close>: semaphore and lock\<close>

text \<open>
  A \<^verbatim>\<open>Semaphore\<close> of \<^verbatim>\<open>threading\<close> or \<^verbatim>\<open>multiprocessing\<close> is its counter: \<^verbatim>\<open>acquire\<close>
  takes one unit and waits while the counter is 0, \<^verbatim>\<open>release\<close> adds one unit and has no
  upper bound. A \<^verbatim>\<open>Lock\<close> is its flag: \<^verbatim>\<open>acquire\<close> waits while it is set, and
  \<^verbatim>\<open>release\<close>, which any thread may call, raises on a lock that is not held. A wait
  that cannot end is the result \<open>None\<close>.
\<close>

definition Semaphore_acquire :: "nat \<Rightarrow> nat option" where
  "Semaphore_acquire c = (if c = 0 then None else Some (c - 1))"

definition Semaphore_release :: "nat \<Rightarrow> nat" where
  "Semaphore_release c = c + 1"

definition Lock_acquire :: "bool \<Rightarrow> bool option" where
  "Lock_acquire l = (if l then None else Some True)"

definition Lock_release :: "bool \<Rightarrow> exn + bool" where
  "Lock_release l = (if l then Inr False else Inl RuntimeError)"

record sdb = fdb +
  mode :: bool
  max_readers :: nat
  semaphore :: nat
  write_lock :: bool

text \<open>
  The constructor. With \<^verbatim>\<open>mode\<close> true the semaphore is a \<^verbatim>\<open>threading.Semaphore\<close>, which
  raises \<^verbatim>\<open>ValueError\<close> on a negative value and has no largest value. Otherwise it is a
  \<^verbatim>\<open>multiprocessing.Semaphore\<close>, which raises \<^verbatim>\<open>OSError\<close> on a negative value and
  \<^verbatim>\<open>OverflowError\<close> on a value that does not fit a C \<^verbatim>\<open>int\<close>. So an object that exists
  has a natural number of readers.
\<close>

definition Semaphore_init :: "bool \<Rightarrow> int \<Rightarrow> exn + nat" where
  "Semaphore_init m n =
     (if m then (if n < 0 then Inl ValueError else Inr (nat n))
      else if n < 0 then Inl OSError
      else if 2 ^ 31 \<le> n then Inl OverflowError
      else Inr (nat n))"

definition SynchronizedDatabase :: "pydict \<Rightarrow> bool \<Rightarrow> int \<Rightarrow> filesystem \<Rightarrow> log_record list \<Rightarrow> exn + sdb" where
  "SynchronizedDatabase d m n dk lg =
     (let s = FileDatabase_init d
                \<lparr>DB = [], logged = lg, fs = dk,
                 mode = m, max_readers = 0, semaphore = 0, write_lock = False\<rparr>;
          s = s\<lparr>mode := m, max_readers := nat n\<rparr>
      in case Semaphore_init m n of
           Inl e \<Rightarrow> Inl e
         | Inr c \<Rightarrow>
             Inr (logging INFO
                    (if m then ''Threading mode enabled with max readers: %d''
                     else ''Multiprocessing mode enabled with max readers: %d'') [n]
                    (s\<lparr>semaphore := c, write_lock := False\<rparr>)))"

text \<open>
  The four gate methods, as one caller runs them from entry to return. Each catches
  every exception and logs it.
\<close>

definition acquire_read_lock :: "'a sdb_scheme \<Rightarrow> 'a sdb_scheme option" where
  "acquire_read_lock s =
     (let s = logging DEBUG ''Acquiring read lock.'' [] s in
      case Semaphore_acquire (semaphore s) of
        None \<Rightarrow> None
      | Some c \<Rightarrow> Some (s\<lparr>semaphore := c\<rparr>))"

definition release_read_semaphore :: "'a sdb_scheme \<Rightarrow> 'a sdb_scheme" where
  "release_read_semaphore s =
     (let s = logging DEBUG ''Releasing read semaphore.'' [] s
      in s\<lparr>semaphore := Semaphore_release (semaphore s)\<rparr>)"

text \<open>\<^verbatim>\<open>for _ in range(n): self.semaphore.acquire()\<close> and its counterpart with \<^verbatim>\<open>release\<close>.\<close>

fun acquire_units :: "nat \<Rightarrow> 'a sdb_scheme \<Rightarrow> 'a sdb_scheme option" where
  "acquire_units 0 s = Some s"
| "acquire_units (Suc n) s =
     (case Semaphore_acquire (semaphore s) of
        None \<Rightarrow> None
      | Some c \<Rightarrow> acquire_units n (s\<lparr>semaphore := c\<rparr>))"

fun release_units :: "nat \<Rightarrow> 'a sdb_scheme \<Rightarrow> 'a sdb_scheme" where
  "release_units 0 s = s"
| "release_units (Suc n) s = release_units n (s\<lparr>semaphore := Semaphore_release (semaphore s)\<rparr>)"

definition acquire_write_lock :: "'a sdb_scheme \<Rightarrow> 'a sdb_scheme option" where
  "acquire_write_lock s =
     (let s = logging DEBUG ''Acquiring write lock.'' [] s in
      case Lock_acquire (write_lock s) of
        None \<Rightarrow> None
      | Some l \<Rightarrow> acquire_units (max_readers s) (s\<lparr>write_lock := l\<rparr>))"

definition release_write_lock :: "'a sdb_scheme \<Rightarrow> 'a sdb_scheme" where
  "release_write_lock s =
     (let s = logging DEBUG ''Releasing write lock and read semaphores.'' [] s;
          s = release_units (max_readers s) s
      in case Lock_release (write_lock s) of
           Inr l \<Rightarrow> s\<lparr>write_lock := l\<rparr>
         | Inl e \<Rightarrow> logging ERROR ''Error releasing write lock: %s'' [] s)"

text \<open>
  \<^verbatim>\<open>try: return body() finally: fin()\<close>: the final block runs after the body whether the
  body returned or raised; the body's outcome is the statement's outcome unless the final
  block raises itself.
\<close>

definition try_finally ::
  "('s \<Rightarrow> (exn + 'r) \<times> 's) \<Rightarrow> ('s \<Rightarrow> (exn + unit) \<times> 's) \<Rightarrow> 's \<Rightarrow> (exn + 'r) \<times> 's" where
  "try_finally body fin s =
     (case body s of (r, s) \<Rightarrow>
        (case fin s of
           (Inl e, s) \<Rightarrow> (Inl e, s)
         | (Inr _, s) \<Rightarrow> (r, s)))"

text \<open>
  The three public methods have one shape: acquire, then the inherited operation inside
  \<^verbatim>\<open>try\<close>, then the release inside \<^verbatim>\<open>finally\<close>. The shape is written once, with the
  inherited operation as \<open>body\<close>.
\<close>

definition with_write_lock ::
  "('a sdb_scheme \<Rightarrow> (exn + 'r) \<times> 'a sdb_scheme) \<Rightarrow> 'a sdb_scheme
     \<Rightarrow> ((exn + 'r) \<times> 'a sdb_scheme) option" where
  "with_write_lock body s =
     (case acquire_write_lock s of
        None \<Rightarrow> None
      | Some s \<Rightarrow> Some (try_finally body (\<lambda>s. (Inr (), release_write_lock s)) s))"

definition with_read_lock ::
  "('a sdb_scheme \<Rightarrow> (exn + 'r) \<times> 'a sdb_scheme) \<Rightarrow> 'a sdb_scheme
     \<Rightarrow> ((exn + 'r) \<times> 'a sdb_scheme) option" where
  "with_read_lock body s =
     (case acquire_read_lock s of
        None \<Rightarrow> None
      | Some s \<Rightarrow> Some (try_finally body (\<lambda>s. (Inr (), release_read_semaphore s)) s))"

definition SynchronizedDatabase_set_value ::
  "int \<Rightarrow> int \<Rightarrow> 'a sdb_scheme \<Rightarrow> ((exn + bool) \<times> 'a sdb_scheme) option" where
  "SynchronizedDatabase_set_value key val =
     with_write_lock (\<lambda>s. case FileDatabase_set_value key val s of (b, s) \<Rightarrow> (Inr b, s))"

definition SynchronizedDatabase_get_value ::
  "int \<Rightarrow> 'a sdb_scheme \<Rightarrow> ((exn + pyval) \<times> 'a sdb_scheme) option" where
  "SynchronizedDatabase_get_value key = with_read_lock (FileDatabase_get_value key)"

definition SynchronizedDatabase_delete_value ::
  "int \<Rightarrow> 'a sdb_scheme \<Rightarrow> ((exn + bool) \<times> 'a sdb_scheme) option" where
  "SynchronizedDatabase_delete_value key = with_write_lock (FileDatabase_del_value key)"

section \<open>\<^verbatim>\<open>SynchronizedDatabase\<close> of \<^verbatim>\<open>src/winapi.py\<close>: event and mutex\<close>

text \<open>
  The Win32 objects. An auto-reset event is its signalled flag: a wait returns once the
  flag is set and clears it; \<^verbatim>\<open>SetEvent\<close> sets it. A mutex is free or owned by a thread,
  together with the number of further waits the owner has made on it: a wait by the owner
  returns at once and counts up, a wait by another thread does not return while it is
  owned, and \<^verbatim>\<open>ReleaseMutex\<close> by a thread that does not own it fails with error 288.
\<close>

definition Event_wait :: "bool \<Rightarrow> bool option" where
  "Event_wait e = (if e then Some False else None)"

definition SetEvent :: "bool \<Rightarrow> bool" where
  "SetEvent e = True"

definition Mutex_wait :: "nat \<Rightarrow> (nat \<times> nat) option \<Rightarrow> (nat \<times> nat) option option" where
  "Mutex_wait t m =
     (case m of
        None \<Rightarrow> Some (Some (t, 0))
      | Some (owner, c) \<Rightarrow> if owner = t then Some (Some (t, c + 1)) else None)"

definition ReleaseMutex :: "nat \<Rightarrow> (nat \<times> nat) option \<Rightarrow> exn + (nat \<times> nat) option" where
  "ReleaseMutex t m =
     (case m of
        None \<Rightarrow> Inl (WinError 288)
      | Some (owner, c) \<Rightarrow>
          if owner \<noteq> t then Inl (WinError 288)
          else if c = 0 then Inr None else Inr (Some (t, c - 1)))"

record wdb = fdb +
  win_max_readers :: int
  read_event :: bool
  write_mutex :: "(nat \<times> nat) option"
  reader_count :: int

definition win_SynchronizedDatabase ::
  "pydict \<Rightarrow> bool \<Rightarrow> int \<Rightarrow> filesystem \<Rightarrow> log_record list \<Rightarrow> exn + wdb" where
  "win_SynchronizedDatabase d m n dk lg =
     (case win_FileDatabase_init d
             \<lparr>DB = [], logged = lg, fs = dk,
              win_max_readers = 0, read_event = False, write_mutex = None, reader_count = 0\<rparr> of
        Inl e \<Rightarrow> Inl e
      | Inr s \<Rightarrow>
          Inr (logging INFO ''Max readers: %d'' [n]
                (logging INFO ''Using win32event for synchronization.'' []
                  (s\<lparr>win_max_readers := n, read_event := True, write_mutex := None,
                     reader_count := 0\<rparr>))))"

text \<open>
  The gate methods of the thread \<open>t\<close>, from entry to return. None of them catches an
  exception, so a failed \<^verbatim>\<open>ReleaseMutex\<close> leaves the method at once.
\<close>

definition win_acquire_read_lock ::
  "nat \<Rightarrow> 'a wdb_scheme \<Rightarrow> ((exn + unit) \<times> 'a wdb_scheme) option" where
  "win_acquire_read_lock t s =
     (case Mutex_wait t (write_mutex s) of
        None \<Rightarrow> None
      | Some m \<Rightarrow>
         (let s = s\<lparr>write_mutex := m\<rparr>;
              s = s\<lparr>reader_count := reader_count s + 1\<rparr>
          in case (if reader_count s = 1 then Event_wait (read_event s)
                   else Some (read_event s)) of
               None \<Rightarrow> None
             | Some e \<Rightarrow>
                (let s = s\<lparr>read_event := e\<rparr> in
                 case ReleaseMutex t (write_mutex s) of
                   Inl x \<Rightarrow> Some (Inl x, s)
                 | Inr m \<Rightarrow>
                     Some (Inr (), logging DEBUG ''Reader acquired read lock.'' []
                                     (s\<lparr>write_mutex := m\<rparr>)))))"

definition win_release_read_semaphore ::
  "nat \<Rightarrow> 'a wdb_scheme \<Rightarrow> ((exn + unit) \<times> 'a wdb_scheme) option" where
  "win_release_read_semaphore t s =
     (case Mutex_wait t (write_mutex s) of
        None \<Rightarrow> None
      | Some m \<Rightarrow>
         (let s = s\<lparr>write_mutex := m\<rparr>;
              s = s\<lparr>reader_count := reader_count s - 1\<rparr>;
              s = (if reader_count s = 0 then s\<lparr>read_event := SetEvent (read_event s)\<rparr> else s)
          in case ReleaseMutex t (write_mutex s) of
               Inl x \<Rightarrow> Some (Inl x, s)
             | Inr m \<Rightarrow>
                 Some (Inr (), logging DEBUG ''Reader released read lock.'' []
                                 (s\<lparr>write_mutex := m\<rparr>))))"

definition win_acquire_write_lock ::
  "nat \<Rightarrow> 'a wdb_scheme \<Rightarrow> ((exn + unit) \<times> 'a wdb_scheme) option" where
  "win_acquire_write_lock t s =
     (case Event_wait (read_event s) of
        None \<Rightarrow> None
      | Some e \<Rightarrow>
         (let s = s\<lparr>read_event := e\<rparr> in
          case Mutex_wait t (write_mutex s) of
            None \<Rightarrow> None
          | Some m \<Rightarrow>
              Some (Inr (), logging DEBUG ''Writer acquired write lock.'' []
                              (s\<lparr>write_mutex := m\<rparr>))))"

definition win_release_write_lock ::
  "nat \<Rightarrow> 'a wdb_scheme \<Rightarrow> (exn + unit) \<times> 'a wdb_scheme" where
  "win_release_write_lock t s =
     (case ReleaseMutex t (write_mutex s) of
        Inl x \<Rightarrow> (Inl x, s)
      | Inr m \<Rightarrow>
         (let s = s\<lparr>write_mutex := m\<rparr>;
              s = s\<lparr>read_event := SetEvent (read_event s)\<rparr>
          in (Inr (), logging DEBUG ''Writer released write lock.'' [] s)))"

text \<open>
  The public methods: the acquire is outside the \<^verbatim>\<open>try\<close>, so an exception of the acquire
  leaves the method without a release. A release that waits for ever inside \<^verbatim>\<open>finally\<close>
  makes the whole call \<open>None\<close>.
\<close>

definition try_finally_wait ::
  "('s \<Rightarrow> (exn + 'r) \<times> 's) \<Rightarrow> ('s \<Rightarrow> ((exn + unit) \<times> 's) option) \<Rightarrow> 's
     \<Rightarrow> ((exn + 'r) \<times> 's) option" where
  "try_finally_wait body fin s =
     (case body s of (r, s) \<Rightarrow>
        (case fin s of
           None \<Rightarrow> None
         | Some (Inl e, s) \<Rightarrow> Some (Inl e, s)
         | Some (Inr _, s) \<Rightarrow> Some (r, s)))"

definition win_with_write_lock ::
  "nat \<Rightarrow> ('a wdb_scheme \<Rightarrow> (exn + 'r) \<times> 'a wdb_scheme) \<Rightarrow> 'a wdb_scheme
     \<Rightarrow> ((exn + 'r) \<times> 'a wdb_scheme) option" where
  "win_with_write_lock t body s =
     (case win_acquire_write_lock t s of
        None \<Rightarrow> None
      | Some (Inl e, s) \<Rightarrow> Some (Inl e, s)
      | Some (Inr _, s) \<Rightarrow> Some (try_finally body (win_release_write_lock t) s))"

definition win_with_read_lock ::
  "nat \<Rightarrow> ('a wdb_scheme \<Rightarrow> (exn + 'r) \<times> 'a wdb_scheme) \<Rightarrow> 'a wdb_scheme
     \<Rightarrow> ((exn + 'r) \<times> 'a wdb_scheme) option" where
  "win_with_read_lock t body s =
     (case win_acquire_read_lock t s of
        None \<Rightarrow> None
      | Some (Inl e, s) \<Rightarrow> Some (Inl e, s)
      | Some (Inr _, s) \<Rightarrow> try_finally_wait body (win_release_read_semaphore t) s)"

definition win_SynchronizedDatabase_set_value ::
  "nat \<Rightarrow> int \<Rightarrow> int \<Rightarrow> 'a wdb_scheme \<Rightarrow> ((exn + bool) \<times> 'a wdb_scheme) option" where
  "win_SynchronizedDatabase_set_value t key val =
     win_with_write_lock t (\<lambda>s. case win_set_value key val s of (b, s) \<Rightarrow> (Inr b, s))"

definition win_SynchronizedDatabase_get_value ::
  "nat \<Rightarrow> int \<Rightarrow> 'a wdb_scheme \<Rightarrow> ((exn + pyval) \<times> 'a wdb_scheme) option" where
  "win_SynchronizedDatabase_get_value t key = win_with_read_lock t (win_get_value key)"

definition win_SynchronizedDatabase_del_value ::
  "nat \<Rightarrow> int \<Rightarrow> 'a wdb_scheme \<Rightarrow> ((exn + bool) \<times> 'a wdb_scheme) option" where
  "win_SynchronizedDatabase_del_value t key = win_with_write_lock t (win_del_value key)"

text \<open>The fields of the two gates, to say that a call leaves a gate as it found it.\<close>

definition gate_fields :: "'a sdb_scheme \<Rightarrow> nat \<times> nat \<times> bool" where
  "gate_fields s = (max_readers s, semaphore s, write_lock s)"

definition win_gate_fields :: "'a wdb_scheme \<Rightarrow> bool \<times> (nat \<times> nat) option \<times> int" where
  "win_gate_fields s = (read_event s, write_mutex s, reader_count s)"

section \<open>The gates under interleaving\<close>

text \<open>
  Several threads (or processes) share one gate, and a gate method is not atomic: it is
  a sequence of calls on the semaphore, lock, event or mutex, and the calls of different
  threads interleave. A thread uses the gate the way the public methods do: \<^verbatim>\<open>get_value\<close>
  acquires for reading, runs the inherited operation, and releases for reading;
  \<^verbatim>\<open>set_value\<close> and \<^verbatim>\<open>delete_value\<close> do the same for writing. The state of a thread is
  the place it has reached, the state of the system is the gate's own fields and the
  places of all threads, and a schedule is the list of the steps taken, each by one
  thread: an idle thread begins a read or a write operation, any other thread proceeds
  by its next call. A step that would wait is not possible (\<open>None\<close>) in that state.
\<close>

datatype move = BeginRead | BeginWrite | Proceed

text \<open>
  \<^verbatim>\<open>sync_Database.py\<close>. A reader takes one unit and is inside its operation
  (\<open>A_Reading\<close>) until it gives the unit back. A writer takes the lock, runs the
  \<^verbatim>\<open>for\<close> loop of \<^verbatim>\<open>acquire_write_lock\<close> with \<open>k\<close> rounds to go (\<open>A_Draining k\<close>), is
  inside its operation once the method has returned (\<open>A_Writing\<close>), runs the loop of
  \<^verbatim>\<open>release_write_lock\<close> (\<open>A_Releasing k\<close>) and at last releases the lock, where a
  failure is caught and logged.
\<close>

datatype pcA = A_Idle | A_Reading | A_Draining nat | A_Writing | A_Releasing nat

record gateA =
  sem :: nat
  lck :: bool
  pcs :: "pcA list"

fun thread_stepA :: "nat \<Rightarrow> pcA \<Rightarrow> move \<Rightarrow> nat \<Rightarrow> bool \<Rightarrow> (pcA \<times> nat \<times> bool) option" where
  "thread_stepA N A_Idle BeginRead c l =
     (case Semaphore_acquire c of None \<Rightarrow> None | Some c' \<Rightarrow> Some (A_Reading, c', l))"
| "thread_stepA N A_Reading Proceed c l = Some (A_Idle, Semaphore_release c, l)"
| "thread_stepA N A_Idle BeginWrite c l =
     (case Lock_acquire l of None \<Rightarrow> None | Some l' \<Rightarrow> Some (A_Draining N, c, l'))"
| "thread_stepA N (A_Draining (Suc k)) Proceed c l =
     (case Semaphore_acquire c of None \<Rightarrow> None | Some c' \<Rightarrow> Some (A_Draining k, c', l))"
| "thread_stepA N (A_Draining 0) Proceed c l = Some (A_Writing, c, l)"
| "thread_stepA N A_Writing Proceed c l = Some (A_Releasing N, c, l)"
| "thread_stepA N (A_Releasing (Suc k)) Proceed c l =
     Some (A_Releasing k, Semaphore_release c, l)"
| "thread_stepA N (A_Releasing 0) Proceed c l =
     (case Lock_release l of Inr l' \<Rightarrow> Some (A_Idle, c, l') | Inl e \<Rightarrow> Some (A_Idle, c, l))"
| "thread_stepA N _ _ c l = None"

definition stepA :: "nat \<Rightarrow> gateA \<Rightarrow> nat \<times> move \<Rightarrow> gateA option" where
  "stepA N g e =
     (case e of (i, mv) \<Rightarrow>
        if i < length (pcs g) then
          (case thread_stepA N (pcs g ! i) mv (sem g) (lck g) of
             None \<Rightarrow> None
           | Some (pc, c, l) \<Rightarrow> Some \<lparr>sem = c, lck = l, pcs = (pcs g)[i := pc]\<rparr>)
        else None)"

fun runA :: "nat \<Rightarrow> gateA \<Rightarrow> (nat \<times> move) list \<Rightarrow> gateA option" where
  "runA N g [] = Some g"
| "runA N g (e # es) = (case stepA N g e of None \<Rightarrow> None | Some g' \<Rightarrow> runA N g' es)"

definition initA :: "nat \<Rightarrow> nat \<Rightarrow> gateA" where
  "initA N T = \<lparr>sem = N, lck = False, pcs = replicate T A_Idle\<rparr>"

text \<open>
  What the proof keeps track of: the units a thread holds, whether it is in a part of a
  write operation that runs under the lock, and that a loop counter stays within \<open>N\<close>.
  The units of all threads and the counter of the semaphore add up to \<open>N\<close>, and the lock
  is taken exactly when one thread is under it.
\<close>

fun unitsA :: "nat \<Rightarrow> pcA \<Rightarrow> nat" where
  "unitsA N A_Idle = 0"
| "unitsA N A_Reading = 1"
| "unitsA N (A_Draining k) = N - k"
| "unitsA N A_Writing = N"
| "unitsA N (A_Releasing k) = k"

fun holdsL :: "pcA \<Rightarrow> nat" where
  "holdsL A_Idle = 0"
| "holdsL A_Reading = 0"
| "holdsL (A_Draining k) = 1"
| "holdsL A_Writing = 1"
| "holdsL (A_Releasing k) = 1"

fun wfpcA :: "nat \<Rightarrow> pcA \<Rightarrow> bool" where
  "wfpcA N (A_Draining k) = (k \<le> N)"
| "wfpcA N (A_Releasing k) = (k \<le> N)"
| "wfpcA N _ = True"

definition invA :: "nat \<Rightarrow> gateA \<Rightarrow> bool" where
  "invA N g \<longleftrightarrow>
     sem g + sum_list (map (unitsA N) (pcs g)) = N
     \<and> sum_list (map holdsL (pcs g)) = (if lck g then 1 else 0)
     \<and> list_all (wfpcA N) (pcs g)"

text \<open>
  \<^verbatim>\<open>winapi.py\<close>, one place per statement. \<^verbatim>\<open>acquire_read_lock\<close>: wait for the mutex, then
  \<open>RA_inc\<close> (before \<^verbatim>\<open>reader_count += 1\<close>), \<open>RA_test\<close> (before the \<^verbatim>\<open>if\<close>), \<open>RA_wait\<close>
  (before the wait for the event), \<open>RA_rel\<close> (before \<^verbatim>\<open>ReleaseMutex\<close>), then \<open>B_Reading\<close>.
  \<^verbatim>\<open>release_read_semaphore\<close>: wait for the mutex, then \<open>RR_dec\<close>, \<open>RR_test\<close>, \<open>RR_set\<close>
  (before \<^verbatim>\<open>SetEvent\<close>), \<open>RR_rel\<close>. \<^verbatim>\<open>acquire_write_lock\<close>: wait for the event, then
  \<open>WA_lock\<close> (before the wait for the mutex), then \<open>B_Writing\<close>. \<^verbatim>\<open>release_write_lock\<close>:
  \<^verbatim>\<open>ReleaseMutex\<close>, then \<open>WR_set\<close> (before \<^verbatim>\<open>SetEvent\<close>). A \<^verbatim>\<open>ReleaseMutex\<close> that fails
  raises, and the exception ends the public method.
\<close>

datatype pcB = B_Idle | RA_inc | RA_test | RA_wait | RA_rel | B_Reading
  | RR_dec | RR_test | RR_set | RR_rel | WA_lock | B_Writing | WR_set

record gateB =
  ev :: bool
  mx :: "(nat \<times> nat) option"
  rc :: int
  pcsB :: "pcB list"

fun thread_stepB ::
  "nat \<Rightarrow> pcB \<Rightarrow> move \<Rightarrow> bool \<Rightarrow> (nat \<times> nat) option \<Rightarrow> int
     \<Rightarrow> (pcB \<times> bool \<times> (nat \<times> nat) option \<times> int) option" where
  "thread_stepB t B_Idle BeginRead e m r =
     (case Mutex_wait t m of None \<Rightarrow> None | Some m' \<Rightarrow> Some (RA_inc, e, m', r))"
| "thread_stepB t RA_inc Proceed e m r = Some (RA_test, e, m, r + 1)"
| "thread_stepB t RA_test Proceed e m r = Some (if r = 1 then RA_wait else RA_rel, e, m, r)"
| "thread_stepB t RA_wait Proceed e m r =
     (case Event_wait e of None \<Rightarrow> None | Some e' \<Rightarrow> Some (RA_rel, e', m, r))"
| "thread_stepB t RA_rel Proceed e m r =
     (case ReleaseMutex t m of Inr m' \<Rightarrow> Some (B_Reading, e, m', r) | Inl x \<Rightarrow> Some (B_Idle, e, m, r))"
| "thread_stepB t B_Reading Proceed e m r =
     (case Mutex_wait t m of None \<Rightarrow> None | Some m' \<Rightarrow> Some (RR_dec, e, m', r))"
| "thread_stepB t RR_dec Proceed e m r = Some (RR_test, e, m, r - 1)"
| "thread_stepB t RR_test Proceed e m r = Some (if r = 0 then RR_set else RR_rel, e, m, r)"
| "thread_stepB t RR_set Proceed e m r = Some (RR_rel, SetEvent e, m, r)"
| "thread_stepB t RR_rel Proceed e m r =
     (case ReleaseMutex t m of Inr m' \<Rightarrow> Some (B_Idle, e, m', r) | Inl x \<Rightarrow> Some (B_Idle, e, m, r))"
| "thread_stepB t B_Idle BeginWrite e m r =
     (case Event_wait e of None \<Rightarrow> None | Some e' \<Rightarrow> Some (WA_lock, e', m, r))"
| "thread_stepB t WA_lock Proceed e m r =
     (case Mutex_wait t m of None \<Rightarrow> None | Some m' \<Rightarrow> Some (B_Writing, e, m', r))"
| "thread_stepB t B_Writing Proceed e m r =
     (case ReleaseMutex t m of Inr m' \<Rightarrow> Some (WR_set, e, m', r) | Inl x \<Rightarrow> Some (B_Idle, e, m, r))"
| "thread_stepB t WR_set Proceed e m r = Some (B_Idle, SetEvent e, m, r)"
| "thread_stepB t _ _ e m r = None"

definition stepB :: "gateB \<Rightarrow> nat \<times> move \<Rightarrow> gateB option" where
  "stepB g e =
     (case e of (i, mv) \<Rightarrow>
        if i < length (pcsB g) then
          (case thread_stepB i (pcsB g ! i) mv (ev g) (mx g) (rc g) of
             None \<Rightarrow> None
           | Some (pc, e', m, r) \<Rightarrow> Some \<lparr>ev = e', mx = m, rc = r, pcsB = (pcsB g)[i := pc]\<rparr>)
        else None)"

fun runB :: "gateB \<Rightarrow> (nat \<times> move) list \<Rightarrow> gateB option" where
  "runB g [] = Some g"
| "runB g (e # es) = (case stepB g e of None \<Rightarrow> None | Some g' \<Rightarrow> runB g' es)"

definition initB :: "nat \<Rightarrow> gateB" where
  "initB T = \<lparr>ev = True, mx = None, rc = 0, pcsB = replicate T B_Idle\<rparr>"

text \<open>
  What the proof keeps track of. \<open>holdsM\<close>: the places between a wait for the mutex and
  its release. The event is a token that is in the event itself, with a writer
  (\<open>wtok\<close>), or with the group of readers; the group is the threads at \<open>B_Reading\<close>
  (\<open>rdB\<close>) and, when the thread that holds the mutex is on its way in or out, that
  thread (\<open>grpH\<close>). \<open>cntH\<close> says whether that thread is counted in \<^verbatim>\<open>reader_count\<close>.
\<close>

definition holdsM :: "pcB \<Rightarrow> bool" where
  "holdsM pc \<longleftrightarrow> pc \<in> {RA_inc, RA_test, RA_wait, RA_rel, RR_dec, RR_test, RR_set, RR_rel, B_Writing}"

definition cntH :: "pcB \<Rightarrow> nat" where
  "cntH pc = (if pc \<in> {RA_test, RA_wait, RA_rel, RR_dec} then 1 else 0)"

definition grpH :: "pcB \<Rightarrow> nat" where
  "grpH pc = (if pc \<in> {RA_rel, RR_dec, RR_test, RR_set} then 1 else 0)"

definition rdB :: "pcB \<Rightarrow> nat" where
  "rdB pc = (if pc = B_Reading then 1 else 0)"

definition wtok :: "pcB \<Rightarrow> nat" where
  "wtok pc = (if pc \<in> {WA_lock, B_Writing, WR_set} then 1 else 0)"

definition mutex_ok :: "(nat \<times> nat) option \<Rightarrow> pcB list \<Rightarrow> bool" where
  "mutex_ok m ps \<longleftrightarrow>
     (\<forall>j < length ps. holdsM (ps ! j) \<longrightarrow> m = Some (j, 0))
     \<and> (\<forall>j c. m = Some (j, c) \<longrightarrow> j < length ps \<and> c = 0 \<and> holdsM (ps ! j))"

definition holder_pc :: "(nat \<times> nat) option \<Rightarrow> pcB list \<Rightarrow> pcB" where
  "holder_pc m ps = (case m of None \<Rightarrow> B_Idle | Some (i, c) \<Rightarrow> ps ! i)"

definition num_ok :: "bool \<Rightarrow> int \<Rightarrow> nat \<Rightarrow> nat \<Rightarrow> pcB \<Rightarrow> bool" where
  "num_ok e r R W h \<longleftrightarrow>
     r = int (R + cntH h)
     \<and> (if e then 1 else 0) + W + min 1 (R + grpH h) = (1 :: nat)
     \<and> (h = RA_wait \<or> h = RR_set \<longrightarrow> R = 0)"

definition invB :: "gateB \<Rightarrow> bool" where
  "invB g \<longleftrightarrow>
     mutex_ok (mx g) (pcsB g)
     \<and> num_ok (ev g) (rc g) (sum_list (map rdB (pcsB g))) (sum_list (map wtok (pcsB g)))
          (holder_pc (mx g) (pcsB g))"

text \<open>
  The four gate methods are public, so a caller can also call them in any order.
  \<open>gate_calls\<close> runs a sequence of whole calls, each with its caller, on the gate of
  \<^verbatim>\<open>sync_Database.py\<close>; \<open>inside acq rel cs a\<close> says that after the calls \<open>cs\<close> the caller
  \<open>a\<close> is inside a critical section: its last call of the kinds \<open>acq\<close> and \<open>rel\<close> is the
  acquire.
\<close>

datatype gate_op = Acquire_read | Release_read | Acquire_write | Release_write

fun gate_call :: "gate_op \<Rightarrow> 'a sdb_scheme \<Rightarrow> 'a sdb_scheme option" where
  "gate_call Acquire_read s = acquire_read_lock s"
| "gate_call Release_read s = Some (release_read_semaphore s)"
| "gate_call Acquire_write s = acquire_write_lock s"
| "gate_call Release_write s = Some (release_write_lock s)"

fun gate_calls :: "(nat \<times> gate_op) list \<Rightarrow> 'a sdb_scheme \<Rightarrow> 'a sdb_scheme option" where
  "gate_calls [] s = Some s"
| "gate_calls ((a, c) # cs) s =
     (case gate_call c s of None \<Rightarrow> None | Some s' \<Rightarrow> gate_calls cs s')"

definition inside :: "gate_op \<Rightarrow> gate_op \<Rightarrow> (nat \<times> gate_op) list \<Rightarrow> nat \<Rightarrow> bool" where
  "inside acq rel cs a \<longleftrightarrow>
     (case filter (\<lambda>(b, c). b = a \<and> (c = acq \<or> c = rel)) cs of
        [] \<Rightarrow> False
      | x # xs \<Rightarrow> snd (last (x # xs)) = acq)"

section \<open>Reading the log as a trace of the persistence calls\<close>

text \<open>
  \<^verbatim>\<open>load_from_file\<close> and \<^verbatim>\<open>save_to_file\<close> each write exactly one log record on every
  path, so the records an operation appends tell which of them ran and in which order.
\<close>

definition is_load_record :: "log_record \<Rightarrow> bool" where
  "is_load_record r \<longleftrightarrow>
     r = (INFO, ''Database loaded from file: %s'', [])
     \<or> r = (ERROR, ''Error loading database from file: %s'', [])"

definition is_save_record :: "log_record \<Rightarrow> bool" where
  "is_save_record r \<longleftrightarrow>
     r = (INFO, ''Database saved to file: %s'', [])
     \<or> r = (ERROR, ''Error saving database to file: %s'', [])"

definition reload_first :: "'a db_scheme \<Rightarrow> 'a db_scheme \<Rightarrow> bool" where
  "reload_first s s' \<longleftrightarrow>
     take (length (logged s)) (logged s') = logged s
     \<and> (case drop (length (logged s)) (logged s') of [] \<Rightarrow> False | r # _ \<Rightarrow> is_load_record r)"

definition saved :: "'a db_scheme \<Rightarrow> 'a db_scheme \<Rightarrow> bool" where
  "saved s s' \<longleftrightarrow> list_ex is_save_record (drop (length (logged s)) (logged s'))"

section \<open>Properties of the in-memory store\<close>

lemma DB_logging [simp]: "DB (logging lv msg args s) = DB s"
  by (simp add: logging_def)

lemma logged_logging [simp]: "logged (logging lv msg args s) = logged s @ [(lv, msg, args)]"
  by (simp add: logging_def)

lemma del_value_present:
  "key \<in> fst ` set (DB s) \<Longrightarrow>
     del_value key s =
       (Inr True, logging INFO ''Deleted key %d from database.'' [key]
                    (s\<lparr>DB := AList.delete key (DB s)\<rparr>))"
  by (simp add: del_value_def dict_delitem_def)

lemma del_value_absent:
  "key \<notin> fst ` set (DB s) \<Longrightarrow>
     del_value key s =
       (Inr False, logging WARNING ''Key %d not found for deletion.'' [key] s)"
  by (simp add: del_value_def dict_delitem_def)

lemma set_value_eq:
  "set_value key val s =
     (True, logging INFO ''Value set: %d -> %d'' [key, val]
              (s\<lparr>DB := AList.update key val (DB s)\<rparr>))"
  by (simp add: set_value_def dict_setitem_def)

text \<open>
  Claim C6. \<^verbatim>\<open>del_value(key)\<close> returns \<^verbatim>\<open>True\<close> exactly when the key was in the
  mapping; afterwards the key is gone and every other binding is as before. On a missing
  key the result is the value \<^verbatim>\<open>False\<close>, not an exception, and the mapping is left as it
  was; so a second delete of the same key returns \<^verbatim>\<open>False\<close>.
\<close>

theorem del_value_semantics:
  fixes s :: "'a db_scheme" and key :: int
  defines "r \<equiv> del_value key s"
  shows "fst r = Inr (key \<in> fst ` set (DB s))
    \<and> key \<notin> fst ` set (DB (snd r))
    \<and> (\<forall>k. k \<noteq> key \<longrightarrow> map_of (DB (snd r)) k = map_of (DB s) k)
    \<and> (key \<notin> fst ` set (DB s) \<longrightarrow> DB (snd r) = DB s)
    \<and> fst (del_value key (snd r)) = Inr False"
proof (cases "key \<in> fst ` set (DB s)")
  case True
  then have r: "r = (Inr True, logging INFO ''Deleted key %d from database.'' [key]
                    (s\<lparr>DB := AList.delete key (DB s)\<rparr>))"
    unfolding r_def by (rule del_value_present)
  have gone: "key \<notin> fst ` set (DB (snd r))"
    by (simp add: r delete_notin_dom)
  from gone have "fst (del_value key (snd r)) = Inr False"
    by (simp add: del_value_absent)
  with True gone show ?thesis
    by (simp add: r)
next
  case False
  then have r: "r = (Inr False, logging WARNING ''Key %d not found for deletion.'' [key] s)"
    unfolding r_def by (rule del_value_absent)
  from False have "fst (del_value key (snd r)) = Inr False"
    by (simp add: r del_value_absent)
  with False show ?thesis
    by (simp add: r)
qed

theorem del_value_semantics_witness:
  "fst (del_value 2 \<lparr>DB = [(1, 10), (2, 20)], logged = []\<rparr>) = Inr True
   \<and> DB (snd (del_value 2 \<lparr>DB = [(1, 10), (2, 20)], logged = []\<rparr>)) = [(1, 10)]
   \<and> map_of (DB (snd (del_value 2 \<lparr>DB = [(1, 10), (2, 20)], logged = []\<rparr>))) 1 = Some 10
   \<and> fst (del_value 2 (snd (del_value 2 \<lparr>DB = [(1, 10), (2, 20)], logged = []\<rparr>))) = Inr False
   \<and> fst (del_value 7 \<lparr>DB = [(1, 10), (2, 20)], logged = []\<rparr>) = Inr False
   \<and> DB (snd (del_value 7 \<lparr>DB = [(1, 10), (2, 20)], logged = []\<rparr>)) = [(1, 10), (2, 20)]"
  using del_value_semantics [of 2 "\<lparr>DB = [(1, 10), (2, 20)], logged = []\<rparr>"]
    del_value_semantics [of 7 "\<lparr>DB = [(1, 10), (2, 20)], logged = []\<rparr>"]
  by (simp add: del_value_def dict_delitem_def)

text \<open>
  Claim C10. When \<^verbatim>\<open>set_value(key, val)\<close> returns \<^verbatim>\<open>True\<close>, the mapping binds
  \<^verbatim>\<open>key\<close> to \<^verbatim>\<open>val\<close>, the binding of every other key is the one it had before, and the
  set of keys has grown by at most \<^verbatim>\<open>key\<close>.
\<close>

theorem set_value_frame:
  fixes s :: "'a db_scheme"
  assumes "set_value key val s = (True, s')"
  shows "map_of (DB s') key = Some val
    \<and> (\<forall>k. k \<noteq> key \<longrightarrow> map_of (DB s') k = map_of (DB s) k)
    \<and> fst ` set (DB s') = insert key (fst ` set (DB s))"
proof -
  from assms have "DB s' = AList.update key val (DB s)"
    by (auto simp: set_value_eq)
  then show ?thesis
    by (simp add: update_conv' dom_update)
qed

theorem set_value_frame_witness:
  "set_value 3 30 \<lparr>DB = [(1, 10), (2, 20)], logged = []\<rparr>
     = (True, \<lparr>DB = [(1, 10), (2, 20), (3, 30)],
               logged = [(INFO, ''Value set: %d -> %d'', [3, 30])]\<rparr>)
   \<and> map_of [(1, 10), (2, 20), (3, 30 :: int)] (3 :: int) = Some 30
   \<and> map_of [(1, 10), (2, 20), (3, 30 :: int)] (1 :: int) = map_of [(1, 10), (2, 20)] 1"
proof -
  have run: "set_value 3 30 \<lparr>DB = [(1, 10), (2, 20)], logged = []\<rparr>
     = (True, \<lparr>DB = [(1, 10), (2, 20), (3, 30)],
               logged = [(INFO, ''Value set: %d -> %d'', [3, 30])]\<rparr>)"
    by (simp add: set_value_def dict_setitem_def logging_def)
  from set_value_frame [OF run] run show ?thesis
    by simp
qed

section \<open>Properties of the persistence layer\<close>

lemma fs_logging [simp]: "fs (logging lv msg args s) = fs s"
  by (simp add: logging_def)

lemma fs_load [simp]: "fs (load_from_file s) = fs s"
  by (simp add: load_from_file_def split: sum.splits)

lemma logged_load:
  "\<exists>r. is_load_record r \<and> logged (load_from_file s) = logged s @ [r]"
  by (simp add: load_from_file_def is_load_record_def split: sum.splits)

lemma fs_win_load [simp]: "fs (win_load_from_file s) = fs s"
  by (simp add: win_load_from_file_def split: sum.splits)

lemma logged_win_load:
  "\<exists>r. is_load_record r \<and> logged (win_load_from_file s) = logged s @ [r]"
  by (simp add: win_load_from_file_def is_load_record_def split: sum.splits)

lemma logged_save:
  "\<exists>r. is_save_record r \<and> logged (save_to_file s) = logged s @ [r]"
  by (simp add: save_to_file_def is_save_record_def split: sum.splits)

lemma logged_win_save:
  "\<exists>r. is_save_record r \<and> logged (win_save_to_file s) = logged s @ [r]"
  by (simp add: win_save_to_file_def is_save_record_def split: sum.splits)

lemma DB_save [simp]: "DB (save_to_file s) = DB s"
  by (simp add: save_to_file_def split: sum.splits)

lemma DB_win_save [simp]: "DB (win_save_to_file s) = DB s"
  by (simp add: win_save_to_file_def split: sum.splits)

lemma not_save_records [simp]:
  "\<not> is_save_record (INFO, ''Value set: %d -> %d'', a)"
  "\<not> is_save_record (INFO, ''Fetched value for key %d: %d'', a)"
  "\<not> is_save_record (WARNING, ''Key %d not found in the database.'', a)"
  "\<not> is_save_record (INFO, ''Deleted key %d from database.'', a)"
  "\<not> is_save_record (WARNING, ''Key %d not found for deletion.'', a)"
  by (simp_all add: is_save_record_def)


lemma get_value_discipline:
  fixes s :: "'a fdb_scheme"
  shows "reload_first s (snd (FileDatabase_get_value key s))
    \<and> \<not> saved s (snd (FileDatabase_get_value key s))
    \<and> fs (snd (FileDatabase_get_value key s)) = fs s
    \<and> fst (FileDatabase_get_value key s) = fst (get_value key (load_from_file s))"
proof -
  obtain r where r: "is_load_record r" "logged (load_from_file s) = logged s @ [r]"
    using logged_load by blast
  have nr: "\<not> is_save_record r"
    using r(1) by (auto simp: is_load_record_def is_save_record_def)
  show ?thesis
    using r nr
    by (auto simp: FileDatabase_get_value_def get_value_def dict_getitem_def reload_first_def
        saved_def split: option.splits)
qed

lemma set_value_discipline:
  fixes s :: "'a fdb_scheme"
  shows "reload_first s (snd (FileDatabase_set_value key val s))
    \<and> (saved s (snd (FileDatabase_set_value key val s)) \<longleftrightarrow> fst (FileDatabase_set_value key val s))
    \<and> DB (snd (FileDatabase_set_value key val s)) = AList.update key val (DB (load_from_file s))
    \<and> (writable (fs s) \<longrightarrow> content (fs (snd (FileDatabase_set_value key val s)))
          = Some (Pickled (DB (snd (FileDatabase_set_value key val s)))))"
proof -
  obtain r where r: "is_load_record r" "logged (load_from_file s) = logged s @ [r]"
    using logged_load by blast
  let ?t = "logging INFO ''Value set: %d -> %d'' [key, val]
              (load_from_file s\<lparr>DB := AList.update key val (DB (load_from_file s))\<rparr>)"
  obtain q where q: "is_save_record q" "logged (save_to_file ?t) = logged ?t @ [q]"
    using logged_save by blast
  have eq: "FileDatabase_set_value key val s = (True, save_to_file ?t)"
    by (simp add: FileDatabase_set_value_def set_value_eq Let_def)
  have w: "writable (fs s) \<Longrightarrow> content (fs (save_to_file ?t)) = Some (Pickled (DB ?t))"
    by (simp add: save_to_file_def open_wb_dump_def)
  show ?thesis
    using r q w
    by (simp add: eq reload_first_def saved_def)
qed

lemma del_value_discipline:
  fixes s :: "'a fdb_scheme"
  shows "reload_first s (snd (FileDatabase_del_value key s))
    \<and> (saved s (snd (FileDatabase_del_value key s)) \<longleftrightarrow> fst (FileDatabase_del_value key s) = Inr True)
    \<and> fst (FileDatabase_del_value key s) = fst (del_value key (load_from_file s))
    \<and> (\<not> saved s (snd (FileDatabase_del_value key s)) \<longrightarrow> fs (snd (FileDatabase_del_value key s)) = fs s)"
proof -
  obtain r where r: "is_load_record r" "logged (load_from_file s) = logged s @ [r]"
    using logged_load by blast
  have nr: "\<not> is_save_record r"
    using r(1) by (auto simp: is_load_record_def is_save_record_def)
  show ?thesis
  proof (cases "key \<in> fst ` set (DB (load_from_file s))")
    case True
    let ?t = "logging INFO ''Deleted key %d from database.'' [key]
              (load_from_file s\<lparr>DB := AList.delete key (DB (load_from_file s))\<rparr>)"
    obtain q where q: "is_save_record q" "logged (save_to_file ?t) = logged ?t @ [q]"
      using logged_save by blast
    have eq: "FileDatabase_del_value key s = (Inr True, save_to_file ?t)"
      using True by (simp add: FileDatabase_del_value_def del_value_present)
    show ?thesis
      using r q True by (simp add: eq reload_first_def saved_def del_value_present)
  next
    case False
    have eq: "FileDatabase_del_value key s =
       (Inr False, logging WARNING ''Key %d not found for deletion.'' [key] (load_from_file s))"
      using False by (simp add: FileDatabase_del_value_def del_value_absent)
    show ?thesis
      using r nr False by (simp add: eq reload_first_def saved_def del_value_absent)
  qed
qed

lemma win_get_value_discipline:
  fixes s :: "'a fdb_scheme"
  shows "reload_first s (snd (win_get_value key s))
    \<and> \<not> saved s (snd (win_get_value key s))
    \<and> fs (snd (win_get_value key s)) = fs s
    \<and> fst (win_get_value key s) = fst (get_value key (win_load_from_file s))"
proof -
  obtain r where r: "is_load_record r" "logged (win_load_from_file s) = logged s @ [r]"
    using logged_win_load by blast
  have nr: "\<not> is_save_record r"
    using r(1) by (auto simp: is_load_record_def is_save_record_def)
  show ?thesis
    using r nr
    by (auto simp: win_get_value_def get_value_def dict_getitem_def reload_first_def
        saved_def split: option.splits)
qed

lemma win_set_value_discipline:
  fixes s :: "'a fdb_scheme"
  shows "reload_first s (snd (win_set_value key val s))
    \<and> (saved s (snd (win_set_value key val s)) \<longleftrightarrow> fst (win_set_value key val s))
    \<and> DB (snd (win_set_value key val s)) = AList.update key val (DB (win_load_from_file s))
    \<and> (writable (fs s) \<and> content (fs s) \<noteq> None \<longrightarrow> content (fs (snd (win_set_value key val s)))
          = Some (Pickled (DB (snd (win_set_value key val s)))))"
proof -
  obtain r where r: "is_load_record r" "logged (win_load_from_file s) = logged s @ [r]"
    using logged_win_load by blast
  let ?t = "logging INFO ''Value set: %d -> %d'' [key, val]
              (win_load_from_file s\<lparr>DB := AList.update key val (DB (win_load_from_file s))\<rparr>)"
  obtain q where q: "is_save_record q" "logged (win_save_to_file ?t) = logged ?t @ [q]"
    using logged_win_save by blast
  have eq: "win_set_value key val s = (True, win_save_to_file ?t)"
    by (simp add: win_set_value_def set_value_eq Let_def)
  have w: "writable (fs s) \<and> content (fs s) \<noteq> None \<Longrightarrow> content (fs (win_save_to_file ?t)) = Some (Pickled (DB ?t))"
    by (auto simp: win_save_to_file_def CreateFile_write_def)
  show ?thesis
    using r q w
    by (simp add: eq reload_first_def saved_def)
qed

lemma win_del_value_discipline:
  fixes s :: "'a fdb_scheme"
  shows "reload_first s (snd (win_del_value key s))
    \<and> (saved s (snd (win_del_value key s)) \<longleftrightarrow> fst (win_del_value key s) = Inr True)
    \<and> fst (win_del_value key s) = fst (del_value key (win_load_from_file s))
    \<and> (\<not> saved s (snd (win_del_value key s)) \<longrightarrow> fs (snd (win_del_value key s)) = fs s)"
proof -
  obtain r where r: "is_load_record r" "logged (win_load_from_file s) = logged s @ [r]"
    using logged_win_load by blast
  have nr: "\<not> is_save_record r"
    using r(1) by (auto simp: is_load_record_def is_save_record_def)
  show ?thesis
  proof (cases "key \<in> fst ` set (DB (win_load_from_file s))")
    case True
    let ?t = "logging INFO ''Deleted key %d from database.'' [key]
              (win_load_from_file s\<lparr>DB := AList.delete key (DB (win_load_from_file s))\<rparr>)"
    obtain q where q: "is_save_record q" "logged (win_save_to_file ?t) = logged ?t @ [q]"
      using logged_win_save by blast
    have eq: "win_del_value key s = (Inr True, win_save_to_file ?t)"
      using True by (simp add: win_del_value_def del_value_present)
    show ?thesis
      using r q True by (simp add: eq reload_first_def saved_def del_value_present)
  next
    case False
    have eq: "win_del_value key s =
       (Inr False, logging WARNING ''Key %d not found for deletion.'' [key] (win_load_from_file s))"
      using False by (simp add: win_del_value_def del_value_absent)
    show ?thesis
      using r nr False by (simp add: eq reload_first_def saved_def del_value_absent)
  qed
qed


lemma DB_load_from_file:
  "DB (load_from_file s) = (case pickle_read (fs s) of Inr d' \<Rightarrow> d' | Inl e \<Rightarrow> DB s)"
  by (simp add: load_from_file_def split: sum.splits)

lemma get_value_result:
  "fst (get_value key s) =
     Inr (case map_of (DB s) key of Some v \<Rightarrow> IntV v | None \<Rightarrow> StrV ''doesn't exist'')"
  by (simp add: get_value_def dict_getitem_def split: option.splits)

lemma DB_win_load_from_file:
  "DB (win_load_from_file s) = (case win_read (fs s) of Inr d' \<Rightarrow> d' | Inl e \<Rightarrow> DB s)"
  by (simp add: win_load_from_file_def split: sum.splits)

lemma DB_get_value [simp]: "DB (snd (get_value key s)) = DB s"
  by (simp add: get_value_def dict_getitem_def split: option.splits)

lemma fst_del_value: "fst (del_value key s) = Inr (key \<in> fst ` set (DB s))"
  by (cases "key \<in> fst ` set (DB s)") (simp_all add: del_value_present del_value_absent)

lemma DB_del_value: "DB (snd (del_value key s)) = AList.delete key (DB s)"
  by (cases "key \<in> fst ` set (DB s)") (simp_all add: del_value_present del_value_absent)

lemma DB_FileDatabase_del_value:
  "DB (snd (FileDatabase_del_value key s)) = AList.delete key (DB (load_from_file s))"
  by (cases "key \<in> fst ` set (DB (load_from_file s))")
    (simp_all add: FileDatabase_del_value_def del_value_present del_value_absent)

lemma DB_win_del_value:
  "DB (snd (win_del_value key s)) = AList.delete key (DB (win_load_from_file s))"
  by (cases "key \<in> fst ` set (DB (win_load_from_file s))")
    (simp_all add: win_del_value_def del_value_present del_value_absent)

lemma snapshot_consulted:
  fixes s :: "'a fdb_scheme"
  assumes r: "pickle_read (fs s) = Inr d"
  shows "DB (load_from_file s) = d
    \<and> fst (FileDatabase_get_value key s)
        = Inr (case map_of d key of Some v \<Rightarrow> IntV v | None \<Rightarrow> StrV ''doesn't exist'')
    \<and> DB (snd (FileDatabase_get_value key s)) = d
    \<and> DB (snd (FileDatabase_set_value key val s)) = AList.update key val d
    \<and> fst (FileDatabase_del_value key s) = Inr (key \<in> fst ` set d)
    \<and> DB (snd (FileDatabase_del_value key s)) = AList.delete key d"
proof -
  have l: "DB (load_from_file s) = d"
    by (simp add: DB_load_from_file r)
  have "fst (FileDatabase_get_value key s)
        = Inr (case map_of d key of Some v \<Rightarrow> IntV v | None \<Rightarrow> StrV ''doesn't exist'')"
    by (simp add: FileDatabase_get_value_def get_value_result l)
  moreover have "DB (snd (FileDatabase_get_value key s)) = d"
    by (simp add: FileDatabase_get_value_def l)
  moreover have "DB (snd (FileDatabase_set_value key val s)) = AList.update key val d"
    using set_value_discipline [of s key val] by (simp add: l)
  moreover have "fst (FileDatabase_del_value key s) = Inr (key \<in> fst ` set d)"
    using del_value_discipline [of s key] by (simp add: fst_del_value l)
  moreover have "DB (snd (FileDatabase_del_value key s)) = AList.delete key d"
    by (simp add: DB_FileDatabase_del_value l)
  ultimately show ?thesis
    using l by simp
qed

lemma win_snapshot_consulted:
  fixes s :: "'a fdb_scheme"
  assumes r: "win_read (fs s) = Inr d"
  shows "DB (win_load_from_file s) = d
    \<and> fst (win_get_value key s)
        = Inr (case map_of d key of Some v \<Rightarrow> IntV v | None \<Rightarrow> StrV ''doesn't exist'')
    \<and> DB (snd (win_get_value key s)) = d
    \<and> DB (snd (win_set_value key val s)) = AList.update key val d
    \<and> fst (win_del_value key s) = Inr (key \<in> fst ` set d)
    \<and> DB (snd (win_del_value key s)) = AList.delete key d"
proof -
  have l: "DB (win_load_from_file s) = d"
    by (simp add: DB_win_load_from_file r)
  have "fst (win_get_value key s)
        = Inr (case map_of d key of Some v \<Rightarrow> IntV v | None \<Rightarrow> StrV ''doesn't exist'')"
    by (simp add: win_get_value_def get_value_result l)
  moreover have "DB (snd (win_get_value key s)) = d"
    by (simp add: win_get_value_def l)
  moreover have "DB (snd (win_set_value key val s)) = AList.update key val d"
    using win_set_value_discipline [of s key val] by (simp add: l)
  moreover have "fst (win_del_value key s) = Inr (key \<in> fst ` set d)"
    using win_del_value_discipline [of s key] by (simp add: fst_del_value l)
  moreover have "DB (snd (win_del_value key s)) = AList.delete key d"
    by (simp add: DB_win_del_value l)
  ultimately show ?thesis
    using l by simp
qed

lemma pickle_read_Pickled:
  "content dk = Some (Pickled d) \<Longrightarrow> readable dk \<Longrightarrow> pickle_read dk = Inr d \<and> win_read dk = Inr d"
  by (simp add: pickle_read_def open_rb_def pickle_load_def win_read_def CreateFile_read_def)

text \<open>
  Claim C2. In both persistence classes every public operation reloads the snapshot
  first: the first record it logs is the one of \<^verbatim>\<open>load_from_file\<close>, and its result is
  that of the in-memory operation on the reloaded state. \<^verbatim>\<open>save_to_file\<close> runs exactly
  when the operation is \<^verbatim>\<open>set_value\<close> or \<^verbatim>\<open>del_value\<close> and the in-memory operation
  returned \<^verbatim>\<open>True\<close>; a read, and a delete that returned \<^verbatim>\<open>False\<close>, leave the file as it
  was, and a save that can write stores the whole mapping. The reload is of the full
  snapshot: when the file holds the pickle of a mapping and can be read, that mapping
  replaces the in-memory one, and it alone decides the result of the read, the mapping
  the set writes into and the result and mapping of the delete.
\<close>

theorem persistence_discipline:
  fixes s :: "'a fdb_scheme"
  shows "(content (fs s) = Some (Pickled d) \<and> readable (fs s) \<longrightarrow>
      (DB (load_from_file s) = d
       \<and> fst (FileDatabase_get_value key s)
           = Inr (case map_of d key of Some v \<Rightarrow> IntV v | None \<Rightarrow> StrV ''doesn't exist'')
       \<and> DB (snd (FileDatabase_get_value key s)) = d
       \<and> DB (snd (FileDatabase_set_value key val s)) = AList.update key val d
       \<and> fst (FileDatabase_del_value key s) = Inr (key \<in> fst ` set d)
       \<and> DB (snd (FileDatabase_del_value key s)) = AList.delete key d)
    \<and> (DB (win_load_from_file s) = d
       \<and> fst (win_get_value key s)
           = Inr (case map_of d key of Some v \<Rightarrow> IntV v | None \<Rightarrow> StrV ''doesn't exist'')
       \<and> DB (snd (win_get_value key s)) = d
       \<and> DB (snd (win_set_value key val s)) = AList.update key val d
       \<and> fst (win_del_value key s) = Inr (key \<in> fst ` set d)
       \<and> DB (snd (win_del_value key s)) = AList.delete key d))
  \<and> (reload_first s (snd (FileDatabase_get_value key s))
    \<and> \<not> saved s (snd (FileDatabase_get_value key s))
    \<and> fs (snd (FileDatabase_get_value key s)) = fs s
    \<and> fst (FileDatabase_get_value key s) = fst (get_value key (load_from_file s)))
  \<and> (reload_first s (snd (FileDatabase_set_value key val s))
    \<and> (saved s (snd (FileDatabase_set_value key val s)) \<longleftrightarrow> fst (FileDatabase_set_value key val s))
    \<and> DB (snd (FileDatabase_set_value key val s)) = AList.update key val (DB (load_from_file s))
    \<and> (writable (fs s) \<longrightarrow> content (fs (snd (FileDatabase_set_value key val s)))
          = Some (Pickled (DB (snd (FileDatabase_set_value key val s))))))
  \<and> (reload_first s (snd (FileDatabase_del_value key s))
    \<and> (saved s (snd (FileDatabase_del_value key s)) \<longleftrightarrow> fst (FileDatabase_del_value key s) = Inr True)
    \<and> fst (FileDatabase_del_value key s) = fst (del_value key (load_from_file s))
    \<and> (\<not> saved s (snd (FileDatabase_del_value key s)) \<longrightarrow> fs (snd (FileDatabase_del_value key s)) = fs s))
  \<and> (reload_first s (snd (win_get_value key s))
    \<and> \<not> saved s (snd (win_get_value key s))
    \<and> fs (snd (win_get_value key s)) = fs s
    \<and> fst (win_get_value key s) = fst (get_value key (win_load_from_file s)))
  \<and> (reload_first s (snd (win_set_value key val s))
    \<and> (saved s (snd (win_set_value key val s)) \<longleftrightarrow> fst (win_set_value key val s))
    \<and> DB (snd (win_set_value key val s)) = AList.update key val (DB (win_load_from_file s))
    \<and> (writable (fs s) \<and> content (fs s) \<noteq> None \<longrightarrow> content (fs (snd (win_set_value key val s)))
          = Some (Pickled (DB (snd (win_set_value key val s))))))
  \<and> (reload_first s (snd (win_del_value key s))
    \<and> (saved s (snd (win_del_value key s)) \<longleftrightarrow> fst (win_del_value key s) = Inr True)
    \<and> fst (win_del_value key s) = fst (del_value key (win_load_from_file s))
    \<and> (\<not> saved s (snd (win_del_value key s)) \<longrightarrow> fs (snd (win_del_value key s)) = fs s))"
proof (rule conjI)
  show "content (fs s) = Some (Pickled d) \<and> readable (fs s) \<longrightarrow>
      (DB (load_from_file s) = d
       \<and> fst (FileDatabase_get_value key s)
           = Inr (case map_of d key of Some v \<Rightarrow> IntV v | None \<Rightarrow> StrV ''doesn't exist'')
       \<and> DB (snd (FileDatabase_get_value key s)) = d
       \<and> DB (snd (FileDatabase_set_value key val s)) = AList.update key val d
       \<and> fst (FileDatabase_del_value key s) = Inr (key \<in> fst ` set d)
       \<and> DB (snd (FileDatabase_del_value key s)) = AList.delete key d)
    \<and> (DB (win_load_from_file s) = d
       \<and> fst (win_get_value key s)
           = Inr (case map_of d key of Some v \<Rightarrow> IntV v | None \<Rightarrow> StrV ''doesn't exist'')
       \<and> DB (snd (win_get_value key s)) = d
       \<and> DB (snd (win_set_value key val s)) = AList.update key val d
       \<and> fst (win_del_value key s) = Inr (key \<in> fst ` set d)
       \<and> DB (snd (win_del_value key s)) = AList.delete key d)"
  proof
    assume "content (fs s) = Some (Pickled d) \<and> readable (fs s)"
    then have r: "pickle_read (fs s) = Inr d" and w: "win_read (fs s) = Inr d"
      by (simp_all add: pickle_read_Pickled)
    from snapshot_consulted [OF r] win_snapshot_consulted [OF w]
    show "(DB (load_from_file s) = d
       \<and> fst (FileDatabase_get_value key s)
           = Inr (case map_of d key of Some v \<Rightarrow> IntV v | None \<Rightarrow> StrV ''doesn't exist'')
       \<and> DB (snd (FileDatabase_get_value key s)) = d
       \<and> DB (snd (FileDatabase_set_value key val s)) = AList.update key val d
       \<and> fst (FileDatabase_del_value key s) = Inr (key \<in> fst ` set d)
       \<and> DB (snd (FileDatabase_del_value key s)) = AList.delete key d)
    \<and> (DB (win_load_from_file s) = d
       \<and> fst (win_get_value key s)
           = Inr (case map_of d key of Some v \<Rightarrow> IntV v | None \<Rightarrow> StrV ''doesn't exist'')
       \<and> DB (snd (win_get_value key s)) = d
       \<and> DB (snd (win_set_value key val s)) = AList.update key val d
       \<and> fst (win_del_value key s) = Inr (key \<in> fst ` set d)
       \<and> DB (snd (win_del_value key s)) = AList.delete key d)"
      by (rule conjI)
  qed
qed (intro conjI get_value_discipline set_value_discipline del_value_discipline
      win_get_value_discipline win_set_value_discipline win_del_value_discipline)

lemma load_failure:
  "pickle_read (fs s) = Inl e \<Longrightarrow>
     load_from_file s = logging ERROR ''Error loading database from file: %s'' [] s"
  by (simp add: load_from_file_def)

lemma win_load_failure:
  "win_read (fs s) = Inl e \<Longrightarrow>
     win_load_from_file s = logging ERROR ''Error loading database from file: %s'' [] s"
  by (simp add: win_load_from_file_def)

lemma fst_get_value_logging [simp]:
  "fst (get_value key (logging lv msg args s)) = fst (get_value key s)"
  by (simp add: get_value_def split: sum.splits exn.splits)

lemma fst_del_value_logging [simp]:
  "fst (del_value key (logging lv msg args s)) = fst (del_value key s)"
  by (simp add: del_value_def split: sum.splits exn.splits)

text \<open>
  Claim C5. When the reload cannot open or unpickle the file (in \<^verbatim>\<open>winapi.py\<close>: cannot
  open it or unpickle its non-empty content), \<^verbatim>\<open>load_from_file\<close> only appends an
  error record to the log: the mapping and every other field are as before and no
  exception leaves the method. The operation that called it then works on the unchanged
  in-memory mapping.
\<close>

theorem reload_failure_is_silent:
  fixes s :: "'a fdb_scheme"
  shows "(pickle_read (fs s) = Inl e \<longrightarrow>
            load_from_file s = logging ERROR ''Error loading database from file: %s'' [] s
          \<and> DB (load_from_file s) = DB s
          \<and> fst (FileDatabase_get_value key s) = fst (get_value key s)
          \<and> DB (snd (FileDatabase_set_value key val s)) = AList.update key val (DB s)
          \<and> fst (FileDatabase_del_value key s) = fst (del_value key s))
    \<and> (win_read (fs s) = Inl e' \<longrightarrow>
            win_load_from_file s = logging ERROR ''Error loading database from file: %s'' [] s
          \<and> DB (win_load_from_file s) = DB s
          \<and> fst (win_get_value key s) = fst (get_value key s)
          \<and> DB (snd (win_set_value key val s)) = AList.update key val (DB s)
          \<and> fst (win_del_value key s) = fst (del_value key s))"
proof (intro conjI impI)
  assume f: "pickle_read (fs s) = Inl e"
  show l: "load_from_file s = logging ERROR ''Error loading database from file: %s'' [] s"
    using f by (rule load_failure)
  show "DB (load_from_file s) = DB s"
    by (simp add: l)
  show "fst (FileDatabase_get_value key s) = fst (get_value key s)"
    by (simp add: FileDatabase_get_value_def l)
  show "DB (snd (FileDatabase_set_value key val s)) = AList.update key val (DB s)"
    by (simp add: FileDatabase_set_value_def l set_value_eq Let_def)
  show "fst (FileDatabase_del_value key s) = fst (del_value key s)"
    using del_value_discipline [of s key] by (simp add: l)
next
  assume f: "win_read (fs s) = Inl e'"
  show l: "win_load_from_file s = logging ERROR ''Error loading database from file: %s'' [] s"
    using f by (rule win_load_failure)
  show "DB (win_load_from_file s) = DB s"
    by (simp add: l)
  show "fst (win_get_value key s) = fst (get_value key s)"
    by (simp add: win_get_value_def l)
  show "DB (snd (win_set_value key val s)) = AList.update key val (DB s)"
    by (simp add: win_set_value_def l set_value_eq Let_def)
  show "fst (win_del_value key s) = fst (del_value key s)"
    using win_del_value_discipline [of s key] by (simp add: l)
qed


lemmas store_defs =
  FileDatabase_get_value_def FileDatabase_set_value_def FileDatabase_del_value_def
  win_get_value_def win_set_value_def win_del_value_def
  load_from_file_def save_to_file_def win_load_from_file_def win_save_to_file_def
  pickle_read_def win_read_def open_rb_def open_wb_dump_def pickle_load_def
  CreateFile_read_def CreateFile_write_def CreateFile_new_def
  get_value_def set_value_def del_value_def dict_getitem_def dict_setitem_def dict_delitem_def
  logging_def reload_first_def saved_def is_load_record_def is_save_record_def
  FileDatabase_def FileDatabase_init_def Database_init_def os_path_exists_def
  win_FileDatabase_def win_FileDatabase_init_def win_create_if_absent_def

theorem persistence_discipline_witness:
  "fst (FileDatabase_get_value 2
      \<lparr>DB = [(1, 10)], logged = [],
       fs = \<lparr>content = Some (Pickled [(1, 10), (2, 20)]), readable = True, writable = True\<rparr>\<rparr>)
     = Inr (IntV 20)
   \<and> reload_first
        \<lparr>DB = [(1, 10)], logged = [],
         fs = \<lparr>content = Some (Pickled [(1, 10), (2, 20)]), readable = True, writable = True\<rparr>\<rparr>
        (snd (FileDatabase_get_value 2
          \<lparr>DB = [(1, 10)], logged = [],
           fs = \<lparr>content = Some (Pickled [(1, 10), (2, 20)]), readable = True, writable = True\<rparr>\<rparr>))
   \<and> fst (FileDatabase_del_value 2
      \<lparr>DB = [(1, 10)], logged = [],
       fs = \<lparr>content = Some (Pickled [(1, 10), (2, 20)]), readable = True, writable = True\<rparr>\<rparr>)
     = Inr True
   \<and> saved
        \<lparr>DB = [(1, 10)], logged = [],
         fs = \<lparr>content = Some (Pickled [(1, 10), (2, 20)]), readable = True, writable = True\<rparr>\<rparr>
        (snd (FileDatabase_del_value 2
          \<lparr>DB = [(1, 10)], logged = [],
           fs = \<lparr>content = Some (Pickled [(1, 10), (2, 20)]), readable = True, writable = True\<rparr>\<rparr>))
   \<and> fst (win_get_value 2
      \<lparr>DB = [(1, 10)], logged = [],
       fs = \<lparr>content = Some (Pickled [(1, 10), (2, 20)]), readable = True, writable = True\<rparr>\<rparr>)
     = Inr (IntV 20)
   \<and> fst (win_del_value 2
      \<lparr>DB = [(1, 10)], logged = [],
       fs = \<lparr>content = Some (Pickled [(1, 10), (2, 20)]), readable = True, writable = True\<rparr>\<rparr>)
     = Inr True
   \<and> DB (snd (win_set_value 3 30
      \<lparr>DB = [(1, 10)], logged = [],
       fs = \<lparr>content = Some (Pickled [(1, 10), (2, 20)]), readable = True, writable = True\<rparr>\<rparr>))
     = [(1, 10), (2, 20), (3, 30)]
   \<and> fst (win_del_value 7
      \<lparr>DB = [(1, 10)], logged = [],
       fs = \<lparr>content = Some (Pickled [(1, 10), (2, 20)]), readable = True, writable = True\<rparr>\<rparr>)
     = Inr False
   \<and> \<not> saved
        \<lparr>DB = [(1, 10)], logged = [],
         fs = \<lparr>content = Some (Pickled [(1, 10), (2, 20)]), readable = True, writable = True\<rparr>\<rparr>
        (snd (win_del_value 7
          \<lparr>DB = [(1, 10)], logged = [],
           fs = \<lparr>content = Some (Pickled [(1, 10), (2, 20)]), readable = True, writable = True\<rparr>\<rparr>))
   \<and> content (fs (snd (FileDatabase_set_value 3 30
      \<lparr>DB = [(1, 10)], logged = [],
       fs = \<lparr>content = Some (Pickled [(1, 10), (2, 20)]), readable = True, writable = True\<rparr>\<rparr>)))
     = Some (Pickled [(1, 10), (2, 20), (3, 30)])"
  using persistence_discipline [of
      "\<lparr>DB = [(1, 10)], logged = [],
       fs = \<lparr>content = Some (Pickled [(1, 10), (2, 20)]), readable = True, writable = True\<rparr>\<rparr>"
      "[(1, 10), (2, 20)]" 2 30]
    persistence_discipline [of
      "\<lparr>DB = [(1, 10)], logged = [],
       fs = \<lparr>content = Some (Pickled [(1, 10), (2, 20)]), readable = True, writable = True\<rparr>\<rparr>"
      "[(1, 10), (2, 20)]" 7 30]
  by (simp add: store_defs)

theorem reload_failure_is_silent_witness:
  "pickle_read \<lparr>content = None, readable = True, writable = True\<rparr> = Inl FileNotFoundError
   \<and> win_read \<lparr>content = Some Garbage, readable = True, writable = True\<rparr> = Inl UnpicklingError
   \<and> load_from_file \<lparr>DB = [(1, 10)], logged = [],
         fs = \<lparr>content = None, readable = True, writable = True\<rparr>\<rparr>
      = \<lparr>DB = [(1, 10)], logged = [(ERROR, ''Error loading database from file: %s'', [])],
         fs = \<lparr>content = None, readable = True, writable = True\<rparr>\<rparr>
   \<and> fst (FileDatabase_get_value 1 \<lparr>DB = [(1, 10)], logged = [],
         fs = \<lparr>content = None, readable = True, writable = True\<rparr>\<rparr>) = Inr (IntV 10)
   \<and> fst (win_get_value 1 \<lparr>DB = [(1, 10)], logged = [],
         fs = \<lparr>content = Some Garbage, readable = True, writable = True\<rparr>\<rparr>) = Inr (IntV 10)"
  using reload_failure_is_silent [of
      "\<lparr>DB = [(1, 10)], logged = [], fs = \<lparr>content = None, readable = True, writable = True\<rparr>\<rparr>"
      FileNotFoundError 1 30 "WinError 2"]
    reload_failure_is_silent [of
      "\<lparr>DB = [(1, 10)], logged = [], fs = \<lparr>content = Some Garbage, readable = True, writable = True\<rparr>\<rparr>"
      PermissionError 1 30 UnpicklingError]
  by (simp add: store_defs)

text \<open>
  Claim C7. A delete of a key that the store's mapping does not hold (key 42 in the
  claim) returns \<^verbatim>\<open>False\<close>, does not call \<^verbatim>\<open>save_to_file\<close>, and leaves the snapshot
  file exactly as it was. The mapping in question is the one the delete works on: the
  snapshot when it can be loaded, the in-memory mapping when it cannot.
\<close>

theorem failed_delete_keeps_snapshot:
  fixes s :: "'a fdb_scheme"
  assumes "(\<exists>d. pickle_read (fs s) = Inr d \<and> key \<notin> fst ` set d)
     \<or> (\<exists>e. pickle_read (fs s) = Inl e \<and> key \<notin> fst ` set (DB s))"
  shows "fst (FileDatabase_del_value key s) = Inr False
    \<and> \<not> saved s (snd (FileDatabase_del_value key s))
    \<and> fs (snd (FileDatabase_del_value key s)) = fs s"
proof -
  from assms have "key \<notin> fst ` set (DB (load_from_file s))"
    by (auto simp: load_from_file_def)
  then have "fst (del_value key (load_from_file s)) = Inr False"
    by (simp add: del_value_absent)
  with del_value_discipline [of s key] show ?thesis
    by simp
qed

theorem failed_delete_keeps_snapshot_witness:
  "pickle_read \<lparr>content = Some (Pickled [(1, 10), (2, 20)]), readable = True, writable = True\<rparr>
     = Inr [(1, 10), (2, 20)]
   \<and> (42 :: int) \<notin> fst ` set [(1, 10 :: int), (2, 20)]
   \<and> FileDatabase_del_value 42
        \<lparr>DB = [(42, 1)], logged = [],
         fs = \<lparr>content = Some (Pickled [(1, 10), (2, 20)]), readable = True, writable = True\<rparr>\<rparr>
      = (Inr False,
         \<lparr>DB = [(1, 10), (2, 20)],
          logged = [(INFO, ''Database loaded from file: %s'', []),
                    (WARNING, ''Key %d not found for deletion.'', [42])],
          fs = \<lparr>content = Some (Pickled [(1, 10), (2, 20)]), readable = True, writable = True\<rparr>\<rparr>)"
  using failed_delete_keeps_snapshot [of
      "\<lparr>DB = [(42, 1)], logged = [],
        fs = \<lparr>content = Some (Pickled [(1, 10), (2, 20)]), readable = True, writable = True\<rparr>\<rparr>" 42]
  by (simp add: store_defs)

lemma fs_FileDatabase [simp]: "fs (FileDatabase d dk lg) = dk"
  by (simp add: FileDatabase_def FileDatabase_init_def Database_init_def Let_def)

lemma DB_FileDatabase:
  "DB (FileDatabase d dk lg) = (case pickle_read dk of Inr d' \<Rightarrow> d' | Inl e \<Rightarrow> d)"
  by (auto simp: FileDatabase_def FileDatabase_init_def Database_init_def Let_def
      load_from_file_def os_path_exists_def pickle_read_def open_rb_def
      split: sum.splits option.splits)

lemma DB_load_FileDatabase [simp]:
  "DB (load_from_file (FileDatabase d dk lg)) = DB (FileDatabase d dk lg)"
  by (simp add: DB_load_from_file DB_FileDatabase split: sum.splits)

lemma fs_set_writable:
  "writable (fs s) \<Longrightarrow>
     fs (snd (FileDatabase_set_value key val s))
       = (fs s)\<lparr>content := Some (Pickled (AList.update key val (DB (load_from_file s))))\<rparr>"
  by (simp add: FileDatabase_set_value_def set_value_eq Let_def save_to_file_def open_wb_dump_def)

lemma pickle_read_written:
  "pickle_read (dk\<lparr>content := Some (Pickled d)\<rparr>) = (if readable dk then Inr d else Inl PermissionError)"
  by (simp add: pickle_read_def open_rb_def pickle_load_def)

text \<open>
  Claim C4. A store built on the initial mapping \<open>{1: 10, 2: 20}\<close> (the target is
  absent, unreadable, or already holds that mapping) whose file can be written:
  \<^verbatim>\<open>set_value(3, 30)\<close> succeeds, the next \<^verbatim>\<open>get_value(3)\<close> returns 30, and the next
  \<^verbatim>\<open>get_value(99)\<close> returns the not-found result \<^verbatim>\<open>"doesn't exist"\<close>.
\<close>

theorem round_trip:
  assumes w: "writable dk"
    and init: "DB (FileDatabase [(1, 10), (2, 20)] dk lg) = [(1, 10), (2, 20)]"
  shows "(let s0 = FileDatabase [(1, 10), (2, 20)] dk lg;
              (ok, s1) = FileDatabase_set_value 3 30 s0;
              (r1, s2) = FileDatabase_get_value 3 s1;
              (r2, s3) = FileDatabase_get_value 99 s2
          in ok \<and> r1 = Inr (IntV 30) \<and> r2 = Inr (StrV ''doesn't exist'')
             \<and> content (fs s3) = Some (Pickled [(1, 10), (2, 20), (3, 30)]))"
proof -
  define s0 where "s0 = FileDatabase [(1, 10), (2, 20)] dk lg"
  define s1 where "s1 = snd (FileDatabase_set_value 3 30 s0)"
  define s2 where "s2 = snd (FileDatabase_get_value 3 s1)"
  define s3 where "s3 = snd (FileDatabase_get_value 99 s2)"
  have ok: "fst (FileDatabase_set_value 3 30 s0)"
    using set_value_discipline [of s0 3 30] by (simp add: FileDatabase_set_value_def set_value_eq Let_def)
  have db1: "DB s1 = [(1, 10), (2, 20), (3, 30)]"
    using set_value_discipline [of s0 3 30] init by (simp add: s1_def s0_def)
  have fs1: "fs s1 = dk\<lparr>content := Some (Pickled [(1, 10), (2, 20), (3, 30)])\<rparr>"
    using fs_set_writable [of s0 3 30] w init by (simp add: s1_def s0_def)
  have db1': "DB (load_from_file s1) = [(1, 10), (2, 20), (3, 30)]"
    by (simp add: DB_load_from_file fs1 pickle_read_written db1)
  have r1: "fst (FileDatabase_get_value 3 s1) = Inr (IntV 30)"
    by (simp add: FileDatabase_get_value_def get_value_result db1')
  have fs2: "fs s2 = fs s1"
    using get_value_discipline [of s1 3] by (simp add: s2_def)
  have db2: "DB s2 = [(1, 10), (2, 20), (3, 30)]"
    by (simp add: s2_def FileDatabase_get_value_def get_value_def dict_getitem_def db1')
  have db2': "DB (load_from_file s2) = [(1, 10), (2, 20), (3, 30)]"
    by (simp add: DB_load_from_file fs2 fs1 pickle_read_written db2)
  have r2: "fst (FileDatabase_get_value 99 s2) = Inr (StrV ''doesn't exist'')"
    by (simp add: FileDatabase_get_value_def get_value_result db2')
  have fs3: "fs s3 = fs s1"
    using get_value_discipline [of s2 99] fs2 by (simp add: s3_def)
  show ?thesis
    using ok r1 r2 fs3
    by (simp add: Let_def split_beta s0_def [symmetric] s1_def [symmetric] s2_def [symmetric]
        s3_def [symmetric] fs1)
qed

theorem round_trip_witness:
  "writable \<lparr>content = None, readable = True, writable = True\<rparr>
   \<and> DB (FileDatabase [(1, 10), (2, 20)] \<lparr>content = None, readable = True, writable = True\<rparr> [])
       = [(1, 10), (2, 20)]
   \<and> (let s0 = FileDatabase [(1, 10), (2, 20)] \<lparr>content = None, readable = True, writable = True\<rparr> [];
              (ok, s1) = FileDatabase_set_value 3 30 s0;
              (r1, s2) = FileDatabase_get_value 3 s1;
              (r2, s3) = FileDatabase_get_value 99 s2
          in ok \<and> r1 = Inr (IntV 30) \<and> r2 = Inr (StrV ''doesn't exist'')
             \<and> content (fs s3) = Some (Pickled [(1, 10), (2, 20), (3, 30)]))"
proof -
  have w: "writable \<lparr>content = None, readable = True, writable = True\<rparr>"
    by simp
  have i: "DB (FileDatabase [(1, 10), (2, 20)] \<lparr>content = None, readable = True, writable = True\<rparr> [])
       = [(1, 10), (2, 20)]"
    by (simp add: store_defs)
  from round_trip [OF w i] w i show ?thesis
    by blast
qed

text \<open>
  Claim C9 as stated does not hold for \<^verbatim>\<open>file_Database.py\<close>: with an absent target the
  store keeps the constructor's initial mapping, with a present snapshot of the empty
  mapping it starts empty, and \<^verbatim>\<open>get_value(1)\<close> tells the two apart.
\<close>

theorem absent_target_counterexample:
  "DB (FileDatabase [(1, 10)] \<lparr>content = None, readable = True, writable = True\<rparr> []) = [(1, 10)]
   \<and> DB (FileDatabase [(1, 10)] \<lparr>content = Some (Pickled []), readable = True, writable = True\<rparr> []) = []
   \<and> fst (FileDatabase_get_value 1
        (FileDatabase [(1, 10)] \<lparr>content = None, readable = True, writable = True\<rparr> []))
      = Inr (IntV 10)
   \<and> fst (FileDatabase_get_value 1
        (FileDatabase [(1, 10)] \<lparr>content = Some (Pickled []), readable = True, writable = True\<rparr> []))
      = Inr (StrV ''doesn't exist'')"
  by (simp add: store_defs)

text \<open>
  Claim C9, amended. With an absent target the store of \<^verbatim>\<open>file_Database.py\<close> starts
  from the constructor's initial mapping and leaves the target absent: the same mapping
  as a construction over a present, readable snapshot that holds this initial mapping
  (so the empty mapping only for an empty initial mapping). The store of \<^verbatim>\<open>winapi.py\<close>
  creates the target with the empty mapping, whenever it can create and read it, and
  is then in the same mapping and file state as a construction over a present snapshot
  of the empty mapping.
\<close>

theorem absent_target_initialization:
  assumes absent: "content dk = None"
  shows "DB (FileDatabase d dk lg) = d
    \<and> fs (FileDatabase d dk lg) = dk
    \<and> (readable dk \<longrightarrow> DB (FileDatabase d' (dk\<lparr>content := Some (Pickled d)\<rparr>) lg) = d)
    \<and> (readable dk \<and> writable dk \<longrightarrow>
         (\<exists>s s'. win_FileDatabase d dk lg = Inr s
            \<and> win_FileDatabase d' (dk\<lparr>content := Some (Pickled [])\<rparr>) lg' = Inr s'
            \<and> DB s = [] \<and> fs s = dk\<lparr>content := Some (Pickled [])\<rparr>
            \<and> DB s' = DB s \<and> fs s' = fs s))"
proof (intro conjI impI)
  show "DB (FileDatabase d dk lg) = d"
    using absent by (simp add: DB_FileDatabase pickle_read_def open_rb_def)
  show "fs (FileDatabase d dk lg) = dk"
    by simp
  show "DB (FileDatabase d' (dk\<lparr>content := Some (Pickled d)\<rparr>) lg) = d" if "readable dk"
    using that by (simp add: DB_FileDatabase pickle_read_written)
  show "\<exists>s s'. win_FileDatabase d dk lg = Inr s
            \<and> win_FileDatabase d' (dk\<lparr>content := Some (Pickled [])\<rparr>) lg' = Inr s'
            \<and> DB s = [] \<and> fs s = dk\<lparr>content := Some (Pickled [])\<rparr>
            \<and> DB s' = DB s \<and> fs s' = fs s" if "readable dk \<and> writable dk"
    using that absent
    by (simp add: win_FileDatabase_def win_FileDatabase_init_def win_create_if_absent_def
        CreateFile_new_def open_wb_dump_def win_read_def CreateFile_read_def pickle_load_def
        win_load_from_file_def Database_init_def Let_def)
qed

theorem absent_target_initialization_witness:
  "content \<lparr>content = None, readable = True, writable = True\<rparr> = None
   \<and> DB (FileDatabase [(1, 10)] \<lparr>content = None, readable = True, writable = True\<rparr> []) = [(1, 10)]
   \<and> DB (FileDatabase [] \<lparr>content = Some (Pickled [(1, 10)]), readable = True, writable = True\<rparr> [])
        = [(1, 10)]
   \<and> win_FileDatabase [(1, 10)] \<lparr>content = None, readable = True, writable = True\<rparr> []
       = Inr \<lparr>DB = [],
              logged = [(INFO, ''Database loaded from file: %s'', []),
                        (INFO, ''Database initialized with data: %s'', []),
                        (INFO, ''File database initialized with data: %s'', [])],
              fs = \<lparr>content = Some (Pickled []), readable = True, writable = True\<rparr>\<rparr>"
  using absent_target_initialization [of "\<lparr>content = None, readable = True, writable = True\<rparr>"
      "[(1, 10)]" "[]" "[]" "[]"]
  by (auto simp: store_defs)

section \<open>The gate methods run by one caller\<close>

lemma acquire_units_eq:
  "acquire_units n s =
     (if n \<le> semaphore s then Some (s\<lparr>semaphore := semaphore s - n\<rparr>) else None)"
proof (induction n arbitrary: s)
  case 0
  show ?case by simp
next
  case (Suc n)
  show ?case
    by (cases "semaphore s") (auto simp: Suc.IH Semaphore_acquire_def)
qed

lemma release_units_eq: "release_units n s = s\<lparr>semaphore := semaphore s + n\<rparr>"
proof (induction n arbitrary: s)
  case 0
  show ?case by simp
next
  case (Suc n)
  show ?case
    by (simp add: Suc.IH Semaphore_release_def)
qed

lemma acquire_write_lock_eq:
  "acquire_write_lock s =
     (if \<not> write_lock s \<and> max_readers s \<le> semaphore s
      then Some ((logging DEBUG ''Acquiring write lock.'' [] s)
                   \<lparr>write_lock := True, semaphore := semaphore s - max_readers s\<rparr>)
      else None)"
  by (simp add: acquire_write_lock_def Lock_acquire_def acquire_units_eq logging_def Let_def)

lemma release_write_lock_eq:
  "write_lock s \<Longrightarrow>
   release_write_lock s =
     (logging DEBUG ''Releasing write lock and read semaphores.'' [] s)
       \<lparr>semaphore := semaphore s + max_readers s, write_lock := False\<rparr>"
  by (simp add: release_write_lock_def Lock_release_def release_units_eq logging_def Let_def)

lemma acquire_read_lock_eq:
  "acquire_read_lock s =
     (if semaphore s = 0 then None
      else Some ((logging DEBUG ''Acquiring read lock.'' [] s)\<lparr>semaphore := semaphore s - 1\<rparr>))"
  by (simp add: acquire_read_lock_def Semaphore_acquire_def logging_def Let_def)

lemma release_read_semaphore_eq:
  "release_read_semaphore s =
     (logging DEBUG ''Releasing read semaphore.'' [] s)\<lparr>semaphore := semaphore s + 1\<rparr>"
  by (simp add: release_read_semaphore_def Semaphore_release_def logging_def Let_def)

lemma try_finally_total:
  "try_finally body (\<lambda>s. (Inr (), fin s)) s = (fst (body s), fin (snd (body s)))"
  by (simp add: try_finally_def split: prod.splits)

lemma with_write_lock_release:
  fixes body :: "'a sdb_scheme \<Rightarrow> (exn + 'r) \<times> 'a sdb_scheme"
  assumes frame: "\<forall>u. gate_fields (snd (body u)) = gate_fields u"
    and call: "with_write_lock body s = Some (r, s')"
  shows "gate_fields s' = gate_fields s \<and> \<not> write_lock s'
    \<and> (\<exists>u. acquire_write_lock s = Some u \<and> r = fst (body u)
          \<and> logged s' = logged (snd (body u))
                @ [(DEBUG, ''Releasing write lock and read semaphores.'', [])])"
proof -
  from call obtain u where u: "acquire_write_lock s = Some u"
    and res: "(r, s') = (fst (body u), release_write_lock (snd (body u)))"
    by (auto simp: with_write_lock_def try_finally_total split: option.splits)
  from u have gu: "\<not> write_lock s" "max_readers s \<le> semaphore s"
    "gate_fields u = (max_readers s, semaphore s - max_readers s, True)"
    by (auto simp: acquire_write_lock_eq gate_fields_def logging_def split: if_splits)
  from frame gu(3) have gb: "gate_fields (snd (body u)) = (max_readers s, semaphore s - max_readers s, True)"
    by simp
  then have wl: "write_lock (snd (body u))"
    by (simp add: gate_fields_def)
  from res have s': "s' = release_write_lock (snd (body u))" and r: "r = fst (body u)"
    by simp_all
  have "gate_fields s' = gate_fields s"
    using gb gu(1,2) by (simp add: s' release_write_lock_eq [OF wl] gate_fields_def logging_def)
  moreover have "\<not> write_lock s'"
    by (simp add: s' release_write_lock_eq [OF wl])
  moreover have "logged s' = logged (snd (body u))
                @ [(DEBUG, ''Releasing write lock and read semaphores.'', [])]"
    by (simp add: s' release_write_lock_eq [OF wl] logging_def)
  ultimately show ?thesis
    using u r by simp
qed

lemma with_read_lock_release:
  fixes body :: "'a sdb_scheme \<Rightarrow> (exn + 'r) \<times> 'a sdb_scheme"
  assumes frame: "\<forall>u. gate_fields (snd (body u)) = gate_fields u"
    and call: "with_read_lock body s = Some (r, s')"
  shows "gate_fields s' = gate_fields s
    \<and> (\<exists>u. acquire_read_lock s = Some u \<and> r = fst (body u)
          \<and> logged s' = logged (snd (body u)) @ [(DEBUG, ''Releasing read semaphore.'', [])])"
proof -
  from call obtain u where u: "acquire_read_lock s = Some u"
    and res: "(r, s') = (fst (body u), release_read_semaphore (snd (body u)))"
    by (auto simp: with_read_lock_def try_finally_total split: option.splits)
  from u have gu: "semaphore s \<noteq> 0"
    "gate_fields u = (max_readers s, semaphore s - 1, write_lock s)"
    by (auto simp: acquire_read_lock_eq gate_fields_def logging_def split: if_splits)
  from frame gu(2) have gb: "gate_fields (snd (body u)) = (max_readers s, semaphore s - 1, write_lock s)"
    by simp
  from res have s': "s' = release_read_semaphore (snd (body u))" and r: "r = fst (body u)"
    by simp_all
  have "gate_fields s' = gate_fields s"
    using gb gu(1) by (simp add: s' release_read_semaphore_eq gate_fields_def logging_def)
  moreover have "logged s' = logged (snd (body u)) @ [(DEBUG, ''Releasing read semaphore.'', [])]"
    by (simp add: s' release_read_semaphore_eq logging_def)
  ultimately show ?thesis
    using u r by simp
qed

lemma win_acquire_write_lock_Some:
  "win_acquire_write_lock t s = Some (x, u) \<Longrightarrow>
     x = Inr () \<and> read_event s \<and> \<not> read_event u \<and> reader_count u = reader_count s
     \<and> Mutex_wait t (write_mutex s) = Some (write_mutex u)
     \<and> logged u = logged s @ [(DEBUG, ''Writer acquired write lock.'', [])]"
  by (auto simp: win_acquire_write_lock_def Event_wait_def logging_def Let_def
      split: option.splits if_splits)

lemma ReleaseMutex_after_wait:
  "Mutex_wait t m = Some m' \<Longrightarrow> ReleaseMutex t m' = Inr m"
  by (auto simp: Mutex_wait_def ReleaseMutex_def split: option.splits if_splits)

lemma win_with_write_lock_release:
  fixes body :: "'a wdb_scheme \<Rightarrow> (exn + 'r) \<times> 'a wdb_scheme"
  assumes frame: "\<forall>u. win_gate_fields (snd (body u)) = win_gate_fields u"
    and call: "win_with_write_lock t body s = Some (r, s')"
  shows "win_gate_fields s' = win_gate_fields s
    \<and> (\<exists>u. win_acquire_write_lock t s = Some (Inr (), u) \<and> r = fst (body u)
          \<and> logged s' = logged (snd (body u)) @ [(DEBUG, ''Writer released write lock.'', [])]
          \<and> win_release_write_lock t (snd (body u)) = (Inr (), s'))"
proof -
  from call obtain x u where u: "win_acquire_write_lock t s = Some (x, u)"
    by (auto simp: win_with_write_lock_def split: option.splits)
  note a = win_acquire_write_lock_Some [OF u]
  from a have x: "x = Inr ()" by simp
  obtain b v where b: "body u = (b, v)" by (cases "body u")
  from frame have "win_gate_fields (snd (body u)) = win_gate_fields u" by blast
  with b have gv: "read_event v = read_event u" "write_mutex v = write_mutex u"
    "reader_count v = reader_count u"
    by (simp_all add: win_gate_fields_def)
  from a have rel: "ReleaseMutex t (write_mutex v) = Inr (write_mutex s)"
    by (simp add: gv ReleaseMutex_after_wait)
  have fin: "win_release_write_lock t v =
      (Inr (), logging DEBUG ''Writer released write lock.'' []
                 (v\<lparr>write_mutex := write_mutex s, read_event := True\<rparr>))"
    by (simp add: win_release_write_lock_def rel SetEvent_def Let_def)
  from call have res: "r = b"
    "s' = logging DEBUG ''Writer released write lock.'' []
                 (v\<lparr>write_mutex := write_mutex s, read_event := True\<rparr>)"
    by (simp_all add: win_with_write_lock_def u x try_finally_def b fin)
  show ?thesis
    using a gv b fin by (simp add: res u x win_gate_fields_def logging_def)
qed

lemma win_acquire_read_lock_Some:
  "win_acquire_read_lock t s = Some (x, u) \<Longrightarrow>
     x = Inr () \<and> reader_count u = reader_count s + 1 \<and> write_mutex u = write_mutex s
     \<and> (\<exists>m. Mutex_wait t (write_mutex s) = Some m)
     \<and> (if reader_count s = 0 then read_event s \<and> \<not> read_event u
         else read_event u = read_event s)
     \<and> logged u = logged s @ [(DEBUG, ''Reader acquired read lock.'', [])]"
  by (auto simp: win_acquire_read_lock_def Event_wait_def logging_def Let_def
      ReleaseMutex_after_wait
      split: option.splits if_splits sum.splits)

lemma win_release_read_semaphore_eq:
  "Mutex_wait t (write_mutex v) = Some m \<Longrightarrow>
   win_release_read_semaphore t v =
     Some (Inr (), logging DEBUG ''Reader released read lock.'' []
                     (v\<lparr>reader_count := reader_count v - 1,
                        read_event := (if reader_count v = 1 then True else read_event v)\<rparr>))"
  by (simp add: win_release_read_semaphore_def Let_def ReleaseMutex_after_wait SetEvent_def logging_def)

lemma win_with_read_lock_release:
  fixes body :: "'a wdb_scheme \<Rightarrow> (exn + 'r) \<times> 'a wdb_scheme"
  assumes frame: "\<forall>u. win_gate_fields (snd (body u)) = win_gate_fields u"
    and call: "win_with_read_lock t body s = Some (r, s')"
  shows "win_gate_fields s' = win_gate_fields s
    \<and> (\<exists>u. win_acquire_read_lock t s = Some (Inr (), u) \<and> r = fst (body u)
          \<and> logged s' = logged (snd (body u)) @ [(DEBUG, ''Reader released read lock.'', [])]
          \<and> win_release_read_semaphore t (snd (body u)) = Some (Inr (), s'))"
proof -
  from call obtain x u where u: "win_acquire_read_lock t s = Some (x, u)"
    by (auto simp: win_with_read_lock_def split: option.splits)
  note a = win_acquire_read_lock_Some [OF u]
  from a have x: "x = Inr ()" by simp
  from a obtain m where m: "Mutex_wait t (write_mutex s) = Some m" by blast
  obtain b v where b: "body u = (b, v)" by (cases "body u")
  from frame have "win_gate_fields (snd (body u)) = win_gate_fields u" by blast
  with b have gv: "read_event v = read_event u" "write_mutex v = write_mutex u"
    "reader_count v = reader_count u"
    by (simp_all add: win_gate_fields_def)
  from a m have mv: "Mutex_wait t (write_mutex v) = Some m"
    by (simp add: gv)
  note fin = win_release_read_semaphore_eq [OF mv]
  from call have res: "r = b"
    "s' = logging DEBUG ''Reader released read lock.'' []
                     (v\<lparr>reader_count := reader_count v - 1,
                        read_event := (if reader_count v = 1 then True else read_event v)\<rparr>)"
    by (simp_all add: win_with_read_lock_def u x try_finally_wait_def b fin)
  show ?thesis
    using a gv b fin by (auto simp: res u x win_gate_fields_def logging_def split: if_splits)
qed

lemma gate_fields_logging [simp]: "gate_fields (logging lv msg args s) = gate_fields s"
  by (simp add: gate_fields_def logging_def)

lemma win_gate_fields_logging [simp]: "win_gate_fields (logging lv msg args s) = win_gate_fields s"
  by (simp add: win_gate_fields_def logging_def)

lemma gate_fields_DB [simp]: "gate_fields (s\<lparr>DB := d\<rparr>) = gate_fields s"
  by (simp add: gate_fields_def)

lemma gate_fields_fs [simp]: "gate_fields (s\<lparr>fs := d\<rparr>) = gate_fields s"
  by (simp add: gate_fields_def)

lemma win_gate_fields_DB [simp]: "win_gate_fields (s\<lparr>DB := d\<rparr>) = win_gate_fields s"
  by (simp add: win_gate_fields_def)

lemma win_gate_fields_fs [simp]: "win_gate_fields (s\<lparr>fs := d\<rparr>) = win_gate_fields s"
  by (simp add: win_gate_fields_def)

lemma gate_fields_load [simp]: "gate_fields (load_from_file s) = gate_fields s"
  by (simp add: load_from_file_def split: sum.splits)

lemma gate_fields_save [simp]: "gate_fields (save_to_file s) = gate_fields s"
  by (simp add: save_to_file_def split: sum.splits)

lemma win_gate_fields_load [simp]: "win_gate_fields (win_load_from_file s) = win_gate_fields s"
  by (simp add: win_load_from_file_def split: sum.splits)

lemma win_gate_fields_save [simp]: "win_gate_fields (win_save_to_file s) = win_gate_fields s"
  by (simp add: win_save_to_file_def split: sum.splits)

lemma gate_fields_set_value [simp]:
  "gate_fields (snd (FileDatabase_set_value key val s)) = gate_fields s"
  by (simp add: FileDatabase_set_value_def set_value_eq Let_def)

lemma gate_fields_get_value [simp]:
  "gate_fields (snd (FileDatabase_get_value key s)) = gate_fields s"
  by (simp add: FileDatabase_get_value_def get_value_def dict_getitem_def Let_def split: option.splits)

lemma gate_fields_del_value [simp]:
  "gate_fields (snd (FileDatabase_del_value key s)) = gate_fields s"
  by (cases "key \<in> fst ` set (DB (load_from_file s))")
    (simp_all add: FileDatabase_del_value_def del_value_present del_value_absent)

lemma win_gate_fields_set_value [simp]:
  "win_gate_fields (snd (win_set_value key val s)) = win_gate_fields s"
  by (simp add: win_set_value_def set_value_eq Let_def)

lemma win_gate_fields_get_value [simp]:
  "win_gate_fields (snd (win_get_value key s)) = win_gate_fields s"
  by (simp add: win_get_value_def get_value_def dict_getitem_def Let_def split: option.splits)

lemma win_gate_fields_del_value [simp]:
  "win_gate_fields (snd (win_del_value key s)) = win_gate_fields s"
  by (cases "key \<in> fst ` set (DB (win_load_from_file s))")
    (simp_all add: win_del_value_def del_value_present del_value_absent)

lemma with_write_lock_eq:
  "with_write_lock body s =
     (case acquire_write_lock s of
        None \<Rightarrow> None
      | Some u \<Rightarrow> Some (fst (body u), release_write_lock (snd (body u))))"
  by (simp add: with_write_lock_def try_finally_total split: option.splits)

lemma with_read_lock_eq:
  "with_read_lock body s =
     (case acquire_read_lock s of
        None \<Rightarrow> None
      | Some u \<Rightarrow> Some (fst (body u), release_read_semaphore (snd (body u))))"
  by (simp add: with_read_lock_def try_finally_total split: option.splits)

lemma with_write_lock_full:
  fixes body :: "'a sdb_scheme \<Rightarrow> (exn + 'r) \<times> 'a sdb_scheme"
  assumes frame: "\<forall>u. gate_fields (snd (body u)) = gate_fields u"
  shows "(with_write_lock body s \<noteq> None \<longleftrightarrow> \<not> write_lock s \<and> max_readers s \<le> semaphore s)
    \<and> (with_write_lock body s = Some (r, s') \<longrightarrow>
         (\<exists>u. acquire_write_lock s = Some u \<and> r = fst (body u)
            \<and> s' = release_write_lock (snd (body u))
            \<and> logged s' = logged (snd (body u))
                 @ [(DEBUG, ''Releasing write lock and read semaphores.'', [])])
         \<and> gate_fields s' = gate_fields s \<and> \<not> write_lock s')"
proof (intro conjI impI)
  show "with_write_lock body s \<noteq> None \<longleftrightarrow> \<not> write_lock s \<and> max_readers s \<le> semaphore s"
    by (simp add: with_write_lock_eq acquire_write_lock_eq)
next
  assume c: "with_write_lock body s = Some (r, s')"
  note rel = with_write_lock_release [OF frame c]
  from rel obtain u where u: "acquire_write_lock s = Some u" "r = fst (body u)"
    "logged s' = logged (snd (body u)) @ [(DEBUG, ''Releasing write lock and read semaphores.'', [])]"
    by blast
  from c u(1) have "s' = release_write_lock (snd (body u))"
    by (simp add: with_write_lock_eq)
  with u show "\<exists>u. acquire_write_lock s = Some u \<and> r = fst (body u)
            \<and> s' = release_write_lock (snd (body u))
            \<and> logged s' = logged (snd (body u))
                 @ [(DEBUG, ''Releasing write lock and read semaphores.'', [])]"
    by blast
  from rel show "gate_fields s' = gate_fields s" and "\<not> write_lock s'"
    by blast+
qed

lemma with_read_lock_full:
  fixes body :: "'a sdb_scheme \<Rightarrow> (exn + 'r) \<times> 'a sdb_scheme"
  assumes frame: "\<forall>u. gate_fields (snd (body u)) = gate_fields u"
  shows "(with_read_lock body s \<noteq> None \<longleftrightarrow> semaphore s \<noteq> 0)
    \<and> (with_read_lock body s = Some (r, s') \<longrightarrow>
         (\<exists>u. acquire_read_lock s = Some u \<and> r = fst (body u)
            \<and> s' = release_read_semaphore (snd (body u))
            \<and> logged s' = logged (snd (body u)) @ [(DEBUG, ''Releasing read semaphore.'', [])])
         \<and> gate_fields s' = gate_fields s)"
proof (intro conjI impI)
  show "with_read_lock body s \<noteq> None \<longleftrightarrow> semaphore s \<noteq> 0"
    by (simp add: with_read_lock_eq acquire_read_lock_eq)
next
  assume c: "with_read_lock body s = Some (r, s')"
  note rel = with_read_lock_release [OF frame c]
  from rel obtain u where u: "acquire_read_lock s = Some u" "r = fst (body u)"
    "logged s' = logged (snd (body u)) @ [(DEBUG, ''Releasing read semaphore.'', [])]"
    by blast
  from c u(1) have "s' = release_read_semaphore (snd (body u))"
    by (simp add: with_read_lock_eq)
  with u show "\<exists>u. acquire_read_lock s = Some u \<and> r = fst (body u)
            \<and> s' = release_read_semaphore (snd (body u))
            \<and> logged s' = logged (snd (body u)) @ [(DEBUG, ''Releasing read semaphore.'', [])]"
    by blast
  from rel show "gate_fields s' = gate_fields s"
    by blast
qed

lemma win_acquire_write_lock_None:
  "win_acquire_write_lock t s = None \<longleftrightarrow> \<not> read_event s \<or> Mutex_wait t (write_mutex s) = None"
  by (auto simp: win_acquire_write_lock_def Event_wait_def Let_def split: option.splits)

lemma win_acquire_read_lock_None:
  "win_acquire_read_lock t s = None \<longleftrightarrow>
     Mutex_wait t (write_mutex s) = None \<or> (reader_count s = 0 \<and> \<not> read_event s)"
  by (auto simp: win_acquire_read_lock_def Event_wait_def Let_def ReleaseMutex_after_wait
      split: option.splits sum.splits)

lemma win_with_write_lock_full:
  fixes body :: "'a wdb_scheme \<Rightarrow> (exn + 'r) \<times> 'a wdb_scheme"
  assumes frame: "\<forall>u. win_gate_fields (snd (body u)) = win_gate_fields u"
  shows "(win_with_write_lock t body s \<noteq> None \<longleftrightarrow>
            read_event s \<and> Mutex_wait t (write_mutex s) \<noteq> None)
    \<and> (win_with_write_lock t body s = Some (r, s') \<longrightarrow>
         (\<exists>u. win_acquire_write_lock t s = Some (Inr (), u) \<and> r = fst (body u)
            \<and> win_release_write_lock t (snd (body u)) = (Inr (), s')
            \<and> logged s' = logged (snd (body u)) @ [(DEBUG, ''Writer released write lock.'', [])])
         \<and> win_gate_fields s' = win_gate_fields s)"
proof (intro conjI impI)
  show "win_with_write_lock t body s \<noteq> None \<longleftrightarrow>
            read_event s \<and> Mutex_wait t (write_mutex s) \<noteq> None"
    using win_acquire_write_lock_None [of t s]
    by (auto simp: win_with_write_lock_def split: option.splits sum.splits)
next
  assume c: "win_with_write_lock t body s = Some (r, s')"
  from win_with_write_lock_release [OF frame c]
  show "\<exists>u. win_acquire_write_lock t s = Some (Inr (), u) \<and> r = fst (body u)
            \<and> win_release_write_lock t (snd (body u)) = (Inr (), s')
            \<and> logged s' = logged (snd (body u)) @ [(DEBUG, ''Writer released write lock.'', [])]"
    and "win_gate_fields s' = win_gate_fields s"
    by blast+
qed

lemma win_with_read_lock_full:
  fixes body :: "'a wdb_scheme \<Rightarrow> (exn + 'r) \<times> 'a wdb_scheme"
  assumes frame: "\<forall>u. win_gate_fields (snd (body u)) = win_gate_fields u"
  shows "(win_with_read_lock t body s \<noteq> None \<longleftrightarrow>
            Mutex_wait t (write_mutex s) \<noteq> None \<and> (reader_count s = 0 \<longrightarrow> read_event s))
    \<and> (win_with_read_lock t body s = Some (r, s') \<longrightarrow>
         (\<exists>u. win_acquire_read_lock t s = Some (Inr (), u) \<and> r = fst (body u)
            \<and> win_release_read_semaphore t (snd (body u)) = Some (Inr (), s')
            \<and> logged s' = logged (snd (body u)) @ [(DEBUG, ''Reader released read lock.'', [])])
         \<and> win_gate_fields s' = win_gate_fields s)"
proof (intro conjI impI)
  show "win_with_read_lock t body s \<noteq> None \<longleftrightarrow>
            Mutex_wait t (write_mutex s) \<noteq> None \<and> (reader_count s = 0 \<longrightarrow> read_event s)"
  proof (cases "win_acquire_read_lock t s")
    case None
    then show ?thesis
      using win_acquire_read_lock_None [of t s] by (auto simp: win_with_read_lock_def)
  next
    case (Some a)
    obtain x u where a: "a = (x, u)" by (cases a)
    note acq = win_acquire_read_lock_Some [OF Some [unfolded a]]
    from acq obtain m where m: "Mutex_wait t (write_mutex s) = Some m" by blast
    from frame have "win_gate_fields (snd (body u)) = win_gate_fields u" by blast
    with acq m have "Mutex_wait t (write_mutex (snd (body u))) = Some m"
      by (simp add: win_gate_fields_def)
    from win_release_read_semaphore_eq [OF this] obtain v
      where v: "win_release_read_semaphore t (snd (body u)) = Some (Inr (), v)"
      by blast
    obtain b w where b: "body u = (b, w)" by (cases "body u")
    from acq have "x = Inr ()" by simp
    with v b have "win_with_read_lock t body s \<noteq> None"
      by (simp add: win_with_read_lock_def Some a try_finally_wait_def)
    moreover have "win_acquire_read_lock t s \<noteq> None"
      by (simp add: Some)
    ultimately show ?thesis
      using win_acquire_read_lock_None [of t s] by auto
  qed
next
  assume c: "win_with_read_lock t body s = Some (r, s')"
  from win_with_read_lock_release [OF frame c]
  show "\<exists>u. win_acquire_read_lock t s = Some (Inr (), u) \<and> r = fst (body u)
            \<and> win_release_read_semaphore t (snd (body u)) = Some (Inr (), s')
            \<and> logged s' = logged (snd (body u)) @ [(DEBUG, ''Reader released read lock.'', [])]"
    and "win_gate_fields s' = win_gate_fields s"
    by blast+
qed

lemma sync_set_value_release:
  fixes s :: "'a sdb_scheme"
  shows "(SynchronizedDatabase_set_value key val s \<noteq> None \<longleftrightarrow> \<not> write_lock s \<and> max_readers s \<le> semaphore s)
    \<and> (SynchronizedDatabase_set_value key val s = Some (rb, sb) \<longrightarrow>
         (\<exists>u. acquire_write_lock s = Some u \<and> rb = Inr (fst (FileDatabase_set_value key val u))
            \<and> sb = release_write_lock (snd (FileDatabase_set_value key val u))
            \<and> logged sb = logged (snd (FileDatabase_set_value key val u))
                 @ [(DEBUG, ''Releasing write lock and read semaphores.'', [])])
         \<and> gate_fields sb = gate_fields s \<and> \<not> write_lock sb)"
proof -
  have f: "\<forall>u :: 'a sdb_scheme. gate_fields (snd ((\<lambda>s. case FileDatabase_set_value key val s of (b, s) \<Rightarrow> (Inr b, s)) u)) = gate_fields u"
    by (simp add: split_beta)
  from with_write_lock_full [OF f, of s rb sb] show ?thesis
    by (simp add: SynchronizedDatabase_set_value_def split_beta)
qed

lemma sync_get_value_release:
  fixes s :: "'a sdb_scheme"
  shows "(SynchronizedDatabase_get_value key s \<noteq> None \<longleftrightarrow> semaphore s \<noteq> 0)
    \<and> (SynchronizedDatabase_get_value key s = Some (rv, sv) \<longrightarrow>
         (\<exists>u. acquire_read_lock s = Some u \<and> rv = fst (FileDatabase_get_value key u)
            \<and> sv = release_read_semaphore (snd (FileDatabase_get_value key u))
            \<and> logged sv = logged (snd (FileDatabase_get_value key u)) @ [(DEBUG, ''Releasing read semaphore.'', [])])
         \<and> gate_fields sv = gate_fields s)"
proof -
  have f: "\<forall>u :: 'a sdb_scheme. gate_fields (snd ((FileDatabase_get_value key) u)) = gate_fields u"
    by (simp add: split_beta)
  from with_read_lock_full [OF f, of s rv sv] show ?thesis
    by (simp add: SynchronizedDatabase_get_value_def split_beta)
qed

lemma sync_delete_value_release:
  fixes s :: "'a sdb_scheme"
  shows "(SynchronizedDatabase_delete_value key s \<noteq> None \<longleftrightarrow> \<not> write_lock s \<and> max_readers s \<le> semaphore s)
    \<and> (SynchronizedDatabase_delete_value key s = Some (rd, sd) \<longrightarrow>
         (\<exists>u. acquire_write_lock s = Some u \<and> rd = fst (FileDatabase_del_value key u)
            \<and> sd = release_write_lock (snd (FileDatabase_del_value key u))
            \<and> logged sd = logged (snd (FileDatabase_del_value key u))
                 @ [(DEBUG, ''Releasing write lock and read semaphores.'', [])])
         \<and> gate_fields sd = gate_fields s \<and> \<not> write_lock sd)"
proof -
  have f: "\<forall>u :: 'a sdb_scheme. gate_fields (snd ((FileDatabase_del_value key) u)) = gate_fields u"
    by (simp add: split_beta)
  from with_write_lock_full [OF f, of s rd sd] show ?thesis
    by (simp add: SynchronizedDatabase_delete_value_def split_beta)
qed

lemma win_sync_set_value_release:
  fixes w :: "'b wdb_scheme"
  shows "(win_SynchronizedDatabase_set_value t key val w \<noteq> None \<longleftrightarrow>
            read_event w \<and> Mutex_wait t (write_mutex w) \<noteq> None)
    \<and> (win_SynchronizedDatabase_set_value t key val w = Some (rb, wb) \<longrightarrow>
         (\<exists>u. win_acquire_write_lock t w = Some (Inr (), u) \<and> rb = Inr (fst (win_set_value key val u))
            \<and> win_release_write_lock t (snd (win_set_value key val u)) = (Inr (), wb)
            \<and> logged wb = logged (snd (win_set_value key val u)) @ [(DEBUG, ''Writer released write lock.'', [])])
         \<and> win_gate_fields wb = win_gate_fields w)"
proof -
  have f: "\<forall>u :: 'b wdb_scheme. win_gate_fields (snd ((\<lambda>s. case win_set_value key val s of (b, s) \<Rightarrow> (Inr b, s)) u)) = win_gate_fields u"
    by (simp add: split_beta)
  from win_with_write_lock_full [OF f, of t w rb wb] show ?thesis
    by (simp add: win_SynchronizedDatabase_set_value_def split_beta)
qed

lemma win_sync_get_value_release:
  fixes w :: "'b wdb_scheme"
  shows "(win_SynchronizedDatabase_get_value t key w \<noteq> None \<longleftrightarrow>
            Mutex_wait t (write_mutex w) \<noteq> None \<and> (reader_count w = 0 \<longrightarrow> read_event w))
    \<and> (win_SynchronizedDatabase_get_value t key w = Some (rv, wv) \<longrightarrow>
         (\<exists>u. win_acquire_read_lock t w = Some (Inr (), u) \<and> rv = fst (win_get_value key u)
            \<and> win_release_read_semaphore t (snd (win_get_value key u)) = Some (Inr (), wv)
            \<and> logged wv = logged (snd (win_get_value key u)) @ [(DEBUG, ''Reader released read lock.'', [])])
         \<and> win_gate_fields wv = win_gate_fields w)"
proof -
  have f: "\<forall>u :: 'b wdb_scheme. win_gate_fields (snd ((win_get_value key) u)) = win_gate_fields u"
    by (simp add: split_beta)
  from win_with_read_lock_full [OF f, of t w rv wv] show ?thesis
    by (simp add: win_SynchronizedDatabase_get_value_def split_beta)
qed

lemma win_sync_del_value_release:
  fixes w :: "'b wdb_scheme"
  shows "(win_SynchronizedDatabase_del_value t key w \<noteq> None \<longleftrightarrow>
            read_event w \<and> Mutex_wait t (write_mutex w) \<noteq> None)
    \<and> (win_SynchronizedDatabase_del_value t key w = Some (rd, wd) \<longrightarrow>
         (\<exists>u. win_acquire_write_lock t w = Some (Inr (), u) \<and> rd = fst (win_del_value key u)
            \<and> win_release_write_lock t (snd (win_del_value key u)) = (Inr (), wd)
            \<and> logged wd = logged (snd (win_del_value key u)) @ [(DEBUG, ''Writer released write lock.'', [])])
         \<and> win_gate_fields wd = win_gate_fields w)"
proof -
  have f: "\<forall>u :: 'b wdb_scheme. win_gate_fields (snd ((win_del_value key) u)) = win_gate_fields u"
    by (simp add: split_beta)
  from win_with_write_lock_full [OF f, of t w rd wd] show ?thesis
    by (simp add: win_SynchronizedDatabase_del_value_def split_beta)
qed

text \<open>
  Claim C3. A public method returns exactly when its acquire returns, and then,
  whatever the wrapped operation did, return a value or raise, the release has run
  after it: the final state is the release applied to the state the operation left,
  the release's record is the last one logged, the outcome of the operation (value or
  exception) is the outcome of the method, and the gate fields are again what they were
  at the call. This is stated for \<^verbatim>\<open>set_value\<close>, \<^verbatim>\<open>get_value\<close> and \<^verbatim>\<open>delete_value\<close>
  (\<^verbatim>\<open>del_value\<close> in \<^verbatim>\<open>winapi.py\<close>) of both classes, and for the same
  \<^verbatim>\<open>try\<close>/\<^verbatim>\<open>finally\<close> shape around any operation that leaves the gate fields alone, in
  particular one that raises; each public method is that shape around its inherited
  operation.
\<close>

theorem guaranteed_release:
  fixes body :: "'a sdb_scheme \<Rightarrow> (exn + 'r) \<times> 'a sdb_scheme"
    and wbody :: "'b wdb_scheme \<Rightarrow> (exn + 'q) \<times> 'b wdb_scheme"
  assumes frame: "\<forall>u. gate_fields (snd (body u)) = gate_fields u"
    and wframe: "\<forall>u. win_gate_fields (snd (wbody u)) = win_gate_fields u"
  shows "((with_write_lock body s \<noteq> None \<longleftrightarrow> \<not> write_lock s \<and> max_readers s \<le> semaphore s)
    \<and> (with_write_lock body s = Some (r, s') \<longrightarrow>
         (\<exists>u. acquire_write_lock s = Some u \<and> r = fst (body u)
            \<and> s' = release_write_lock (snd (body u))
            \<and> logged s' = logged (snd (body u))
                 @ [(DEBUG, ''Releasing write lock and read semaphores.'', [])])
         \<and> gate_fields s' = gate_fields s \<and> \<not> write_lock s'))
  \<and> ((with_read_lock body s \<noteq> None \<longleftrightarrow> semaphore s \<noteq> 0)
    \<and> (with_read_lock body s = Some (r, s') \<longrightarrow>
         (\<exists>u. acquire_read_lock s = Some u \<and> r = fst (body u)
            \<and> s' = release_read_semaphore (snd (body u))
            \<and> logged s' = logged (snd (body u)) @ [(DEBUG, ''Releasing read semaphore.'', [])])
         \<and> gate_fields s' = gate_fields s))
  \<and> ((win_with_write_lock t wbody w \<noteq> None \<longleftrightarrow>
            read_event w \<and> Mutex_wait t (write_mutex w) \<noteq> None)
    \<and> (win_with_write_lock t wbody w = Some (q, w') \<longrightarrow>
         (\<exists>u. win_acquire_write_lock t w = Some (Inr (), u) \<and> q = fst (wbody u)
            \<and> win_release_write_lock t (snd (wbody u)) = (Inr (), w')
            \<and> logged w' = logged (snd (wbody u)) @ [(DEBUG, ''Writer released write lock.'', [])])
         \<and> win_gate_fields w' = win_gate_fields w))
  \<and> ((win_with_read_lock t wbody w \<noteq> None \<longleftrightarrow>
            Mutex_wait t (write_mutex w) \<noteq> None \<and> (reader_count w = 0 \<longrightarrow> read_event w))
    \<and> (win_with_read_lock t wbody w = Some (q, w') \<longrightarrow>
         (\<exists>u. win_acquire_read_lock t w = Some (Inr (), u) \<and> q = fst (wbody u)
            \<and> win_release_read_semaphore t (snd (wbody u)) = Some (Inr (), w')
            \<and> logged w' = logged (snd (wbody u)) @ [(DEBUG, ''Reader released read lock.'', [])])
         \<and> win_gate_fields w' = win_gate_fields w))
  \<and> ((SynchronizedDatabase_set_value key val s \<noteq> None \<longleftrightarrow> \<not> write_lock s \<and> max_readers s \<le> semaphore s)
    \<and> (SynchronizedDatabase_set_value key val s = Some (rb, sb) \<longrightarrow>
         (\<exists>u. acquire_write_lock s = Some u \<and> rb = Inr (fst (FileDatabase_set_value key val u))
            \<and> sb = release_write_lock (snd (FileDatabase_set_value key val u))
            \<and> logged sb = logged (snd (FileDatabase_set_value key val u))
                 @ [(DEBUG, ''Releasing write lock and read semaphores.'', [])])
         \<and> gate_fields sb = gate_fields s \<and> \<not> write_lock sb))
  \<and> ((SynchronizedDatabase_get_value key s \<noteq> None \<longleftrightarrow> semaphore s \<noteq> 0)
    \<and> (SynchronizedDatabase_get_value key s = Some (rv, sv) \<longrightarrow>
         (\<exists>u. acquire_read_lock s = Some u \<and> rv = fst (FileDatabase_get_value key u)
            \<and> sv = release_read_semaphore (snd (FileDatabase_get_value key u))
            \<and> logged sv = logged (snd (FileDatabase_get_value key u)) @ [(DEBUG, ''Releasing read semaphore.'', [])])
         \<and> gate_fields sv = gate_fields s))
  \<and> ((SynchronizedDatabase_delete_value key s \<noteq> None \<longleftrightarrow> \<not> write_lock s \<and> max_readers s \<le> semaphore s)
    \<and> (SynchronizedDatabase_delete_value key s = Some (rd, sd) \<longrightarrow>
         (\<exists>u. acquire_write_lock s = Some u \<and> rd = fst (FileDatabase_del_value key u)
            \<and> sd = release_write_lock (snd (FileDatabase_del_value key u))
            \<and> logged sd = logged (snd (FileDatabase_del_value key u))
                 @ [(DEBUG, ''Releasing write lock and read semaphores.'', [])])
         \<and> gate_fields sd = gate_fields s \<and> \<not> write_lock sd))
  \<and> ((win_SynchronizedDatabase_set_value t key val w \<noteq> None \<longleftrightarrow>
            read_event w \<and> Mutex_wait t (write_mutex w) \<noteq> None)
    \<and> (win_SynchronizedDatabase_set_value t key val w = Some (rb, wb) \<longrightarrow>
         (\<exists>u. win_acquire_write_lock t w = Some (Inr (), u) \<and> rb = Inr (fst (win_set_value key val u))
            \<and> win_release_write_lock t (snd (win_set_value key val u)) = (Inr (), wb)
            \<and> logged wb = logged (snd (win_set_value key val u)) @ [(DEBUG, ''Writer released write lock.'', [])])
         \<and> win_gate_fields wb = win_gate_fields w))
  \<and> ((win_SynchronizedDatabase_get_value t key w \<noteq> None \<longleftrightarrow>
            Mutex_wait t (write_mutex w) \<noteq> None \<and> (reader_count w = 0 \<longrightarrow> read_event w))
    \<and> (win_SynchronizedDatabase_get_value t key w = Some (rv, wv) \<longrightarrow>
         (\<exists>u. win_acquire_read_lock t w = Some (Inr (), u) \<and> rv = fst (win_get_value key u)
            \<and> win_release_read_semaphore t (snd (win_get_value key u)) = Some (Inr (), wv)
            \<and> logged wv = logged (snd (win_get_value key u)) @ [(DEBUG, ''Reader released read lock.'', [])])
         \<and> win_gate_fields wv = win_gate_fields w))
  \<and> ((win_SynchronizedDatabase_del_value t key w \<noteq> None \<longleftrightarrow>
            read_event w \<and> Mutex_wait t (write_mutex w) \<noteq> None)
    \<and> (win_SynchronizedDatabase_del_value t key w = Some (rd, wd) \<longrightarrow>
         (\<exists>u. win_acquire_write_lock t w = Some (Inr (), u) \<and> rd = fst (win_del_value key u)
            \<and> win_release_write_lock t (snd (win_del_value key u)) = (Inr (), wd)
            \<and> logged wd = logged (snd (win_del_value key u)) @ [(DEBUG, ''Writer released write lock.'', [])])
         \<and> win_gate_fields wd = win_gate_fields w))
  \<and> (SynchronizedDatabase_set_value key val
        = with_write_lock (\<lambda>s :: 'a sdb_scheme. case FileDatabase_set_value key val s of (b, s) \<Rightarrow> (Inr b, s))
    \<and> SynchronizedDatabase_get_value key
        = with_read_lock (FileDatabase_get_value key :: 'a sdb_scheme \<Rightarrow> _)
    \<and> SynchronizedDatabase_delete_value key
        = with_write_lock (FileDatabase_del_value key :: 'a sdb_scheme \<Rightarrow> _)
    \<and> win_SynchronizedDatabase_set_value t key val
        = win_with_write_lock t (\<lambda>s :: 'b wdb_scheme. case win_set_value key val s of (b, s) \<Rightarrow> (Inr b, s))
    \<and> win_SynchronizedDatabase_get_value t key
        = win_with_read_lock t (win_get_value key :: 'b wdb_scheme \<Rightarrow> _)
    \<and> win_SynchronizedDatabase_del_value t key
        = win_with_write_lock t (win_del_value key :: 'b wdb_scheme \<Rightarrow> _))"
  by (intro conjI [OF with_write_lock_full [OF frame]] conjI [OF with_read_lock_full [OF frame]]
      conjI [OF win_with_write_lock_full [OF wframe]] conjI [OF win_with_read_lock_full [OF wframe]]
      conjI [OF sync_set_value_release] conjI [OF sync_get_value_release] conjI [OF sync_delete_value_release]
      conjI [OF win_sync_set_value_release] conjI [OF win_sync_get_value_release] conjI [OF win_sync_del_value_release])
    (simp add: SynchronizedDatabase_set_value_def SynchronizedDatabase_get_value_def
      SynchronizedDatabase_delete_value_def win_SynchronizedDatabase_set_value_def
      win_SynchronizedDatabase_get_value_def win_SynchronizedDatabase_del_value_def)

theorem guaranteed_release_witness:
  "with_write_lock (\<lambda>u. (Inl RuntimeError :: exn + bool, u))
      \<lparr>DB = [(1, 10)], logged = [], fs = \<lparr>content = None, readable = True, writable = True\<rparr>,
       mode = True, max_readers = 2, semaphore = 2, write_lock = False\<rparr>
    = Some (Inl RuntimeError,
      \<lparr>DB = [(1, 10)],
       logged = [(DEBUG, ''Acquiring write lock.'', []),
                 (DEBUG, ''Releasing write lock and read semaphores.'', [])],
       fs = \<lparr>content = None, readable = True, writable = True\<rparr>,
       mode = True, max_readers = 2, semaphore = 2, write_lock = False\<rparr>)
   \<and> win_with_read_lock 0 (\<lambda>u. (Inl RuntimeError :: exn + bool, u))
      \<lparr>DB = [(1, 10)], logged = [], fs = \<lparr>content = None, readable = True, writable = True\<rparr>,
       win_max_readers = 2, read_event = True, write_mutex = None, reader_count = 0\<rparr>
    = Some (Inl RuntimeError,
      \<lparr>DB = [(1, 10)],
       logged = [(DEBUG, ''Reader acquired read lock.'', []),
                 (DEBUG, ''Reader released read lock.'', [])],
       fs = \<lparr>content = None, readable = True, writable = True\<rparr>,
       win_max_readers = 2, read_event = True, write_mutex = None, reader_count = 0\<rparr>)
   \<and> SynchronizedDatabase_delete_value 1
      \<lparr>DB = [(1, 10)], logged = [], fs = \<lparr>content = None, readable = True, writable = True\<rparr>,
       mode = True, max_readers = 2, semaphore = 2, write_lock = False\<rparr>
    = Some (Inr True,
      \<lparr>DB = [],
       logged = [(DEBUG, ''Acquiring write lock.'', []),
                 (ERROR, ''Error loading database from file: %s'', []),
                 (INFO, ''Deleted key %d from database.'', [1]),
                 (INFO, ''Database saved to file: %s'', []),
                 (DEBUG, ''Releasing write lock and read semaphores.'', [])],
       fs = \<lparr>content = Some (Pickled []), readable = True, writable = True\<rparr>,
       mode = True, max_readers = 2, semaphore = 2, write_lock = False\<rparr>)
   \<and> SynchronizedDatabase_delete_value 1
      \<lparr>DB = [(1, 10)], logged = [], fs = \<lparr>content = None, readable = True, writable = True\<rparr>,
       mode = True, max_readers = 2, semaphore = 1, write_lock = False\<rparr>
    = None
   \<and> win_SynchronizedDatabase_get_value 0 1
      \<lparr>DB = [(1, 10)], logged = [], fs = \<lparr>content = None, readable = True, writable = True\<rparr>,
       win_max_readers = 2, read_event = True, write_mutex = None, reader_count = 0\<rparr>
    = Some (Inr (IntV 10),
      \<lparr>DB = [(1, 10)],
       logged = [(DEBUG, ''Reader acquired read lock.'', []),
                 (ERROR, ''Error loading database from file: %s'', []),
                 (INFO, ''Fetched value for key %d: %d'', [1, 10]),
                 (DEBUG, ''Reader released read lock.'', [])],
       fs = \<lparr>content = None, readable = True, writable = True\<rparr>,
       win_max_readers = 2, read_event = True, write_mutex = None, reader_count = 0\<rparr>)"
proof -
  let ?body = "\<lambda>u :: sdb. (Inl RuntimeError :: exn + bool, u)"
  let ?wbody = "\<lambda>u :: wdb. (Inl RuntimeError :: exn + bool, u)"
  let ?s = "\<lparr>DB = [(1, 10)], logged = [], fs = \<lparr>content = None, readable = True, writable = True\<rparr>,
       mode = True, max_readers = 2, semaphore = 2, write_lock = False\<rparr>"
  let ?w = "\<lparr>DB = [(1, 10)], logged = [], fs = \<lparr>content = None, readable = True, writable = True\<rparr>,
       win_max_readers = 2, read_event = True, write_mutex = None, reader_count = 0\<rparr>"
  let ?s' = "\<lparr>DB = [(1, 10)],
       logged = [(DEBUG, ''Acquiring write lock.'', []),
                 (DEBUG, ''Releasing write lock and read semaphores.'', [])],
       fs = \<lparr>content = None, readable = True, writable = True\<rparr>,
       mode = True, max_readers = 2, semaphore = 2, write_lock = False\<rparr>"
  let ?w' = "\<lparr>DB = [(1, 10)],
       logged = [(DEBUG, ''Reader acquired read lock.'', []),
                 (DEBUG, ''Reader released read lock.'', [])],
       fs = \<lparr>content = None, readable = True, writable = True\<rparr>,
       win_max_readers = 2, read_event = True, write_mutex = None, reader_count = 0\<rparr>"
  have f: "\<forall>u. gate_fields (snd (?body u)) = gate_fields u"
    by simp
  have wf: "\<forall>u. win_gate_fields (snd (?wbody u)) = win_gate_fields u"
    by simp
  have run: "with_write_lock ?body ?s = Some (Inl RuntimeError, ?s')"
    by (simp add: with_write_lock_def acquire_write_lock_eq try_finally_def release_write_lock_eq
        logging_def)
  have wrun: "win_with_read_lock 0 ?wbody ?w = Some (Inl RuntimeError, ?w')"
    by (simp add: win_with_read_lock_def win_acquire_read_lock_def Mutex_wait_def Event_wait_def
        ReleaseMutex_def try_finally_wait_def win_release_read_semaphore_def SetEvent_def
        logging_def)
  note inst = guaranteed_release [OF f wf, of ?s "Inl RuntimeError" ?s' 0 ?w "Inl RuntimeError" ?w' 1]
  from inst run wrun
  have kept: "gate_fields ?s' = gate_fields ?s" "win_gate_fields ?w' = win_gate_fields ?w"
    by blast+
  have del: "SynchronizedDatabase_delete_value 1 ?s
    = Some (Inr True,
      \<lparr>DB = [],
       logged = [(DEBUG, ''Acquiring write lock.'', []),
                 (ERROR, ''Error loading database from file: %s'', []),
                 (INFO, ''Deleted key %d from database.'', [1]),
                 (INFO, ''Database saved to file: %s'', []),
                 (DEBUG, ''Releasing write lock and read semaphores.'', [])],
       fs = \<lparr>content = Some (Pickled []), readable = True, writable = True\<rparr>,
       mode = True, max_readers = 2, semaphore = 2, write_lock = False\<rparr>)"
    by (simp add: SynchronizedDatabase_delete_value_def with_write_lock_eq acquire_write_lock_eq
        release_write_lock_eq store_defs)
  have blocked: "SynchronizedDatabase_delete_value 1 (?s\<lparr>semaphore := 1\<rparr>) = None"
    by (simp add: SynchronizedDatabase_delete_value_def with_write_lock_eq acquire_write_lock_eq)
  have get: "win_SynchronizedDatabase_get_value 0 1 ?w
    = Some (Inr (IntV 10),
      \<lparr>DB = [(1, 10)],
       logged = [(DEBUG, ''Reader acquired read lock.'', []),
                 (ERROR, ''Error loading database from file: %s'', []),
                 (INFO, ''Fetched value for key %d: %d'', [1, 10]),
                 (DEBUG, ''Reader released read lock.'', [])],
       fs = \<lparr>content = None, readable = True, writable = True\<rparr>,
       win_max_readers = 2, read_event = True, write_mutex = None, reader_count = 0\<rparr>)"
    by (simp add: win_SynchronizedDatabase_get_value_def win_with_read_lock_def
        win_acquire_read_lock_def Mutex_wait_def Event_wait_def
        ReleaseMutex_def try_finally_wait_def win_release_read_semaphore_def SetEvent_def
        store_defs)
  from kept run wrun del blocked get show ?thesis
    by simp
qed

section \<open>Invariants of the two gates under interleaving\<close>

lemma sum_list_map_update:
  fixes f :: "'a \<Rightarrow> nat"
  shows "i < length xs \<Longrightarrow> sum_list (map f (xs[i := y])) + f (xs ! i) = sum_list (map f xs) + f y"
proof (induction xs arbitrary: i)
  case Nil
  then show ?case by simp
next
  case (Cons x xs)
  show ?case
  proof (cases i)
    case 0
    then show ?thesis by simp
  next
    case (Suc j)
    with Cons.prems have "j < length xs" by simp
    from Cons.IH [OF this] Suc show ?thesis by simp
  qed
qed

lemma sum_list_map_nth_le:
  fixes f :: "'a \<Rightarrow> nat"
  shows "i < length xs \<Longrightarrow> f (xs ! i) \<le> sum_list (map f xs)"
  by (simp add: member_le_sum_list)

lemma sum_list_map_two_le:
  fixes f :: "'a \<Rightarrow> nat"
  assumes "i < length xs" "j < length xs" "i \<noteq> j"
  shows "f (xs ! i) + f (xs ! j) \<le> sum_list (map f xs)"
proof -
  let ?ys = "(map f xs)[i := 0]"
  from assms have j: "j < length ?ys" "?ys ! j = f (xs ! j)"
    by simp_all
  have "?ys ! j \<le> sum_list ?ys"
    using j(1) by (simp only: member_le_sum_list nth_mem)
  moreover have "sum_list (map id ?ys) + id (map f xs ! i) = sum_list (map id (map f xs)) + id 0"
    using assms(1) sum_list_map_update [of i "map f xs" id 0] by simp
  ultimately show ?thesis
    using j(2) assms(1) by simp
qed

lemma thread_stepA_local:
  assumes "thread_stepA N pc mv c l = Some (pc', c', l')"
    and "wfpcA N pc" and "holdsL pc \<le> (if l then 1 else 0)"
  shows "c' + unitsA N pc' = c + unitsA N pc
    \<and> holdsL pc' + (if l then 1 else 0) = holdsL pc + (if l' then 1 else 0)
    \<and> wfpcA N pc'"
  using assms
  by (induction N pc mv c l rule: thread_stepA.induct)
    (auto simp: Semaphore_acquire_def Semaphore_release_def Lock_acquire_def Lock_release_def
      split: if_splits)

lemma stepA_inv:
  assumes inv: "invA N g" and step: "stepA N g e = Some g'"
  shows "invA N g'"
proof -
  obtain i mv where e: "e = (i, mv)" by (cases e)
  from step e obtain pc' c' l' where i: "i < length (pcs g)"
    and t: "thread_stepA N (pcs g ! i) mv (sem g) (lck g) = Some (pc', c', l')"
    and g': "g' = \<lparr>sem = c', lck = l', pcs = (pcs g)[i := pc']\<rparr>"
    by (auto simp: stepA_def split: if_splits option.splits)
  from inv have u: "sem g + sum_list (map (unitsA N) (pcs g)) = N"
    and h: "sum_list (map holdsL (pcs g)) = (if lck g then 1 else 0)"
    and w: "list_all (wfpcA N) (pcs g)"
    by (simp_all add: invA_def)
  from w i have wi: "wfpcA N (pcs g ! i)"
    by (simp add: list_all_length)
  from h sum_list_map_nth_le [OF i, of holdsL] have hi: "holdsL (pcs g ! i) \<le> (if lck g then 1 else 0)"
    by simp
  note loc = thread_stepA_local [OF t wi hi]
  have 1: "sem g' + sum_list (map (unitsA N) (pcs g')) = N"
    using sum_list_map_update [OF i, of "unitsA N" pc'] loc u by (simp add: g')
  have 2: "sum_list (map holdsL (pcs g')) = (if lck g' then 1 else 0)"
    using sum_list_map_update [OF i, of holdsL pc'] loc h by (simp add: g' split: if_splits)
  have 3: "list_all (wfpcA N) (pcs g')"
    using w loc i by (auto simp: g' list_all_length nth_list_update)
  from 1 2 3 show ?thesis
    by (simp add: invA_def)
qed

lemma invA_init: "invA N (initA N T)"
  by (simp add: invA_def initA_def list_all_length sum_list_replicate)

lemma runA_inv: "invA N g \<Longrightarrow> runA N g es = Some g' \<Longrightarrow> invA N g'"
proof (induction es arbitrary: g)
  case Nil
  then show ?case by simp
next
  case (Cons e es)
  from Cons.prems(2) obtain g1 where s: "stepA N g e = Some g1" and r: "runA N g1 es = Some g'"
    by (auto split: option.splits)
  from Cons.prems(1) s have "invA N g1" by (rule stepA_inv)
  then show ?case using r by (rule Cons.IH)
qed

lemma invA_exclusion:
  assumes inv: "invA N g" and i: "i < length (pcs g)" and w: "pcs g ! i = A_Writing"
  shows "sem g = 0 \<and> lck g
    \<and> (\<forall>j < length (pcs g). pcs g ! j \<noteq> A_Reading \<and> (pcs g ! j = A_Writing \<longrightarrow> j = i))"
proof -
  from inv have u: "sem g + sum_list (map (unitsA N) (pcs g)) = N"
    and h: "sum_list (map holdsL (pcs g)) = (if lck g then 1 else 0)"
    by (simp_all add: invA_def)
  from sum_list_map_nth_le [OF i, of "unitsA N"] w u have "sem g = 0"
    by simp
  moreover from sum_list_map_nth_le [OF i, of holdsL] w h have "lck g"
    by (simp split: if_splits)
  moreover have "pcs g ! j \<noteq> A_Reading \<and> (pcs g ! j = A_Writing \<longrightarrow> j = i)"
    if j: "j < length (pcs g)" for j
  proof (cases "j = i")
    case True
    with w show ?thesis by simp
  next
    case False
    from sum_list_map_two_le [OF i j, of "unitsA N"] False w u
    have "N + unitsA N (pcs g ! j) \<le> N" by simp
    moreover from sum_list_map_two_le [OF i j, of holdsL] False w h
    have "1 + holdsL (pcs g ! j) \<le> 1" by (simp split: if_splits)
    ultimately show ?thesis by (cases "pcs g ! j") auto
  qed
  ultimately show ?thesis by blast
qed

lemmas pcB_fun_defs = holdsM_def cntH_def grpH_def rdB_def wtok_def

lemma mutex_ok_holder:
  "mutex_ok m ps \<Longrightarrow> i < length ps \<Longrightarrow> holdsM (ps ! i) \<Longrightarrow> m = Some (i, 0)"
  unfolding mutex_ok_def by blast

lemma mutex_ok_ownerD:
  "mutex_ok m ps \<Longrightarrow> m = Some (j, c) \<Longrightarrow> j < length ps \<and> c = 0 \<and> holdsM (ps ! j)"
  unfolding mutex_ok_def by blast

lemma mutex_ok_not_holder:
  assumes "mutex_ok m ps" "\<not> holdsM (ps ! i)"
  shows "m = None \<or> (\<exists>j. j \<noteq> i \<and> j < length ps \<and> m = Some (j, 0))"
proof (cases m)
  case None
  then show ?thesis by simp
next
  case (Some a)
  obtain j c where a: "a = (j, c)" by (cases a)
  from assms(1) Some a have "j < length ps \<and> c = 0 \<and> holdsM (ps ! j)"
    by (simp add: mutex_ok_ownerD)
  then have "j < length ps" "c = 0" "holdsM (ps ! j)"
    by simp_all
  moreover with assms(2) have "j \<noteq> i" by auto
  ultimately show ?thesis using Some a by simp
qed

lemma mutex_okI:
  assumes a: "\<And>j :: nat. j < length ps \<Longrightarrow> holdsM (ps ! j) \<Longrightarrow> m = Some (j, 0)"
    and b: "\<And>(j :: nat) (c :: nat). m = Some (j, c) \<Longrightarrow> j < length ps \<and> c = 0 \<and> holdsM (ps ! j)"
  shows "mutex_ok m ps"
proof -
  have "\<forall>j < length ps. holdsM (ps ! j) \<longrightarrow> m = Some (j, 0)"
    using a by simp
  moreover have "\<forall>j c. m = Some (j, c) \<longrightarrow> j < length ps \<and> c = 0 \<and> holdsM (ps ! j)"
    using b by simp
  ultimately show ?thesis
    by (simp only: mutex_ok_def simp_thms)
qed

lemma mutex_inner:
  assumes ok: "mutex_ok m ps" and i: "i < length ps" and h: "holdsM (ps ! i)" and h': "holdsM pc"
  shows "mutex_ok m (ps[i := pc]) \<and> holder_pc m ps = ps ! i \<and> holder_pc m (ps[i := pc]) = pc"
proof -
  from ok i h have m: "m = Some (i, 0)" by (rule mutex_ok_holder)
  have "mutex_ok m (ps[i := pc])"
  proof (rule mutex_okI)
    fix j assume j: "j < length (ps[i := pc])" "holdsM (ps[i := pc] ! j)"
    show "m = Some (j, 0)"
    proof (cases "j = i")
      case True
      then show ?thesis by (simp add: m)
    next
      case False
      with j have "j < length ps" "holdsM (ps ! j)" by simp_all
      with ok show ?thesis by (simp add: mutex_ok_holder)
    qed
  next
    fix j c assume "m = Some (j, c)"
    with m have "j = i" "c = 0" by simp_all
    with i h' show "j < length (ps[i := pc]) \<and> c = 0 \<and> holdsM (ps[i := pc] ! j)" by simp
  qed
  then show ?thesis
    using i by (simp add: m holder_pc_def)
qed

lemma mutex_acquire:
  assumes ok: "mutex_ok m ps" and i: "i < length ps" and h: "\<not> holdsM (ps ! i)" and h': "holdsM pc"
    and w: "Mutex_wait i m = Some m'"
  shows "m = None \<and> m' = Some (i, 0) \<and> mutex_ok m' (ps[i := pc])
    \<and> holder_pc m ps = B_Idle \<and> holder_pc m' (ps[i := pc]) = pc"
proof -
  from mutex_ok_not_holder [OF ok h] w have m: "m = None"
    by (auto simp: Mutex_wait_def)
  with w have m': "m' = Some (i, 0)"
    by (simp add: Mutex_wait_def)
  have "mutex_ok m' (ps[i := pc])"
  proof (rule mutex_okI)
    fix j assume j: "j < length (ps[i := pc])" "holdsM (ps[i := pc] ! j)"
    show "m' = Some (j, 0)"
    proof (cases "j = i")
      case True
      then show ?thesis by (simp add: m')
    next
      case False
      with j have "j < length ps" "holdsM (ps ! j)" by simp_all
      with ok have "m = Some (j, 0)" by (simp add: mutex_ok_holder)
      with m show ?thesis by simp
    qed
  next
    fix j c assume "m' = Some (j, c)"
    with m' have "j = i" "c = 0" by simp_all
    with i h' show "j < length (ps[i := pc]) \<and> c = 0 \<and> holdsM (ps[i := pc] ! j)" by simp
  qed
  then show ?thesis
    using i by (simp add: m m' holder_pc_def)
qed

lemma mutex_release:
  assumes ok: "mutex_ok m ps" and i: "i < length ps" and h: "holdsM (ps ! i)" and h': "\<not> holdsM pc"
  shows "ReleaseMutex i m = Inr None \<and> mutex_ok None (ps[i := pc])
    \<and> holder_pc m ps = ps ! i \<and> holder_pc None (ps[i := pc]) = B_Idle"
proof -
  from ok i h have m: "m = Some (i, 0)" by (rule mutex_ok_holder)
  have "mutex_ok None (ps[i := pc])"
  proof (rule mutex_okI)
    fix j assume j: "j < length (ps[i := pc])" "holdsM (ps[i := pc] ! j)"
    show "None = Some (j, 0)"
    proof (cases "j = i")
      case True
      with j i h' show ?thesis by simp
    next
      case False
      with j have "j < length ps" "holdsM (ps ! j)" by simp_all
      with ok have "m = Some (j, 0)" by (simp add: mutex_ok_holder)
      with m False show ?thesis by simp
    qed
  next
    fix j c :: nat assume "None = Some (j, c)"
    then show "j < length (ps[i := pc]) \<and> c = 0 \<and> holdsM (ps[i := pc] ! j)" by simp
  qed
  then show ?thesis
    using i by (simp add: m holder_pc_def ReleaseMutex_def)
qed

lemma mutex_other:
  assumes ok: "mutex_ok m ps" and i: "i < length ps" and h: "\<not> holdsM (ps ! i)" and h': "\<not> holdsM pc"
  shows "mutex_ok m (ps[i := pc]) \<and> holder_pc m (ps[i := pc]) = holder_pc m ps"
proof -
  have 1: "mutex_ok m (ps[i := pc])"
  proof (rule mutex_okI)
    fix j assume j: "j < length (ps[i := pc])" "holdsM (ps[i := pc] ! j)"
    show "m = Some (j, 0)"
    proof (cases "j = i")
      case True
      with j i h' show ?thesis by simp
    next
      case False
      with j have "j < length ps" "holdsM (ps ! j)" by simp_all
      with ok show ?thesis by (simp add: mutex_ok_holder)
    qed
  next
    fix j c assume m: "m = Some (j, c)"
    with ok have "j < length ps \<and> c = 0 \<and> holdsM (ps ! j)" by (simp add: mutex_ok_ownerD)
    then have o: "j < length ps" "c = 0" "holdsM (ps ! j)" by simp_all
    with h have "j \<noteq> i" by auto
    with o show "j < length (ps[i := pc]) \<and> c = 0 \<and> holdsM (ps[i := pc] ! j)" by simp
  qed
  have 2: "holder_pc m (ps[i := pc]) = holder_pc m ps"
  proof (cases m)
    case None
    then show ?thesis by (simp add: holder_pc_def)
  next
    case (Some a)
    obtain j c where a: "a = (j, c)" by (cases a)
    with Some ok have "holdsM (ps ! j)" by (simp add: mutex_ok_ownerD)
    with h have "j \<noteq> i" by auto
    then show ?thesis by (simp add: Some a holder_pc_def)
  qed
  from 1 2 show ?thesis by simp
qed

lemma thread_stepB_num:
  assumes t: "thread_stepB i pc mv e m r = Some (pc', e', m', r')"
    and num: "num_ok e r R W h"
    and h: "holdsM pc \<longrightarrow> h = pc"
    and R': "R' + rdB pc = R + rdB pc'"
    and W': "W' + wtok pc = W + wtok pc'"
    and h': "h' = (if holdsM pc' then pc' else if holdsM pc then B_Idle else h)"
    and acq: "\<not> holdsM pc \<and> holdsM pc' \<longrightarrow> h = B_Idle"
    and rel: "holdsM pc \<longrightarrow> ReleaseMutex i m = Inr None"
  shows "num_ok e' r' R' W' h'"
  using assms
  apply (cases pc; cases mv)
  apply (simp_all add: holdsM_def split: option.splits sum.splits if_splits)
  apply (auto simp: num_ok_def pcB_fun_defs Event_wait_def SetEvent_def split: if_splits)
  done

lemma thread_stepB_mutex:
  assumes t: "thread_stepB i pc mv e m r = Some (pc', e', m', r')"
    and ok: "mutex_ok m ps" and i: "i < length ps" and pc: "pc = ps ! i"
  shows "mutex_ok m' (ps[i := pc'])
    \<and> holder_pc m' (ps[i := pc'])
        = (if holdsM pc' then pc' else if holdsM pc then B_Idle else holder_pc m ps)
    \<and> (holdsM pc \<longrightarrow> holder_pc m ps = pc)
    \<and> (\<not> holdsM pc \<and> holdsM pc' \<longrightarrow> holder_pc m ps = B_Idle)
    \<and> (holdsM pc \<longrightarrow> ReleaseMutex i m = Inr None)"
proof (cases "holdsM pc")
  case True
  with ok i pc have m: "m = Some (i, 0)"
    by (simp add: mutex_ok_holder)
  then have rel: "ReleaseMutex i m = Inr None"
    by (simp add: ReleaseMutex_def)
  show ?thesis
  proof (cases "holdsM pc'")
    case h': True
    from t True h' have "m' = m"
      by (cases pc; cases mv) (auto simp: holdsM_def rel split: option.splits if_splits)
    with mutex_inner [OF ok i True [unfolded pc] h'] True h' rel pc show ?thesis
      by auto
  next
    case h': False
    from t True h' have "m' = None"
      by (cases pc; cases mv) (auto simp: holdsM_def rel split: option.splits if_splits)
    with mutex_release [OF ok i True [unfolded pc] h'] True h' rel pc show ?thesis
      by auto
  qed
next
  case False
  show ?thesis
  proof (cases "holdsM pc'")
    case h': True
    from t False h' have "Mutex_wait i m = Some m'"
      by (cases pc; cases mv) (auto simp: holdsM_def split: option.splits if_splits sum.splits)
    with mutex_acquire [OF ok i False [unfolded pc] h'] False h' pc show ?thesis
      by auto
  next
    case h': False
    from t False h' have "m' = m"
      by (cases pc; cases mv) (auto simp: holdsM_def split: option.splits if_splits sum.splits)
    with mutex_other [OF ok i False [unfolded pc] h'] False h' pc show ?thesis
      by auto
  qed
qed

lemma stepB_inv:
  assumes inv: "invB g" and step: "stepB g e = Some g'"
  shows "invB g'"
proof -
  obtain i mv where e: "e = (i, mv)" by (cases e)
  from step e obtain pc' e' m' r' where i: "i < length (pcsB g)"
    and t: "thread_stepB i (pcsB g ! i) mv (ev g) (mx g) (rc g) = Some (pc', e', m', r')"
    and g': "g' = \<lparr>ev = e', mx = m', rc = r', pcsB = (pcsB g)[i := pc']\<rparr>"
    by (auto simp: stepB_def split: if_splits option.splits)
  from inv have ok: "mutex_ok (mx g) (pcsB g)"
    and num: "num_ok (ev g) (rc g) (sum_list (map rdB (pcsB g))) (sum_list (map wtok (pcsB g)))
          (holder_pc (mx g) (pcsB g))"
    by (simp_all add: invB_def)
  note mu = thread_stepB_mutex [OF t ok i refl]
  have R': "sum_list (map rdB ((pcsB g)[i := pc'])) + rdB (pcsB g ! i)
      = sum_list (map rdB (pcsB g)) + rdB pc'"
    using i by (rule sum_list_map_update)
  have W': "sum_list (map wtok ((pcsB g)[i := pc'])) + wtok (pcsB g ! i)
      = sum_list (map wtok (pcsB g)) + wtok pc'"
    using i by (rule sum_list_map_update)
  have "num_ok e' r' (sum_list (map rdB ((pcsB g)[i := pc'])))
      (sum_list (map wtok ((pcsB g)[i := pc']))) (holder_pc m' ((pcsB g)[i := pc']))"
    using t num _ R' W' _ _ _
  proof (rule thread_stepB_num)
    show "holdsM (pcsB g ! i) \<longrightarrow> holder_pc (mx g) (pcsB g) = pcsB g ! i"
      using mu by blast
    show "holder_pc m' ((pcsB g)[i := pc'])
        = (if holdsM pc' then pc' else if holdsM (pcsB g ! i) then B_Idle
           else holder_pc (mx g) (pcsB g))"
      using mu by blast
    show "\<not> holdsM (pcsB g ! i) \<and> holdsM pc' \<longrightarrow> holder_pc (mx g) (pcsB g) = B_Idle"
      using mu by blast
    show "holdsM (pcsB g ! i) \<longrightarrow> ReleaseMutex i (mx g) = Inr None"
      using mu by blast
  qed
  with mu show ?thesis
    by (simp add: invB_def g')
qed

lemma invB_init: "invB (initB T)"
  by (simp add: invB_def initB_def mutex_ok_def num_ok_def holder_pc_def pcB_fun_defs)

lemma runB_inv: "invB g \<Longrightarrow> runB g es = Some g' \<Longrightarrow> invB g'"
proof (induction es arbitrary: g)
  case Nil
  then show ?case by simp
next
  case (Cons e es)
  from Cons.prems(2) obtain g1 where s: "stepB g e = Some g1" and r: "runB g1 es = Some g'"
    by (auto split: option.splits)
  from Cons.prems(1) s have "invB g1" by (rule stepB_inv)
  then show ?case using r by (rule Cons.IH)
qed

lemma invB_exclusion:
  assumes inv: "invB g" and i: "i < length (pcsB g)" and w: "pcsB g ! i = B_Writing"
  shows "rc g = 0 \<and> \<not> ev g \<and> mx g = Some (i, 0)
    \<and> (\<forall>j < length (pcsB g). pcsB g ! j \<noteq> B_Reading \<and> (pcsB g ! j = B_Writing \<longrightarrow> j = i))"
proof -
  from inv have ok: "mutex_ok (mx g) (pcsB g)"
    and num: "num_ok (ev g) (rc g) (sum_list (map rdB (pcsB g))) (sum_list (map wtok (pcsB g)))
          (holder_pc (mx g) (pcsB g))"
    by (simp_all add: invB_def)
  from w have hw: "holdsM (pcsB g ! i)" by (simp add: holdsM_def)
  with ok i have m: "mx g = Some (i, 0)" by (simp add: mutex_ok_holder)
  with w have h: "holder_pc (mx g) (pcsB g) = B_Writing" by (simp add: holder_pc_def)
  from sum_list_map_nth_le [OF i, of wtok] w have W: "1 \<le> sum_list (map wtok (pcsB g))"
    by (simp add: wtok_def)
  define R where "R = sum_list (map rdB (pcsB g))"
  define W where "W = sum_list (map wtok (pcsB g))"
  from num h have eq: "(if ev g then 1 else 0) + W + min 1 R = (1 :: nat)" and rR: "rc g = int R"
    by (simp_all add: num_ok_def cntH_def grpH_def R_def W_def)
  from W have "1 \<le> W" by (simp add: W_def)
  with eq have "R = 0" and e: "\<not> ev g"
    by (simp_all add: min_def split: if_splits)
  with rR have R: "sum_list (map rdB (pcsB g)) = 0" and r: "rc g = 0"
    by (simp_all add: R_def)
  have "pcsB g ! j \<noteq> B_Reading \<and> (pcsB g ! j = B_Writing \<longrightarrow> j = i)"
    if j: "j < length (pcsB g)" for j
  proof -
    from sum_list_map_nth_le [OF j, of rdB] R have "pcsB g ! j \<noteq> B_Reading"
      by (auto simp: rdB_def)
    moreover have "j = i" if "pcsB g ! j = B_Writing"
    proof -
      from that have "holdsM (pcsB g ! j)" by (simp add: holdsM_def)
      with ok j have "mx g = Some (j, 0)" by (simp add: mutex_ok_holder)
      with m show ?thesis by simp
    qed
    ultimately show ?thesis by blast
  qed
  with r e m show ?thesis by blast
qed

section \<open>The write lock and mutual exclusion\<close>

lemma stepA_update:
  "i < length ps \<Longrightarrow>
   stepA N \<lparr>sem = c, lck = l, pcs = ps[i := pc]\<rparr> (i, mv) =
     (case thread_stepA N pc mv c l of
        None \<Rightarrow> None
      | Some (pc', c', l') \<Rightarrow> Some \<lparr>sem = c', lck = l', pcs = ps[i := pc']\<rparr>)"
  by (simp add: stepA_def split: option.splits)

lemma drain_path:
  "i < length ps \<Longrightarrow> j \<le> k \<Longrightarrow> j \<le> c \<Longrightarrow>
   runA N \<lparr>sem = c, lck = l, pcs = ps[i := A_Draining k]\<rparr> (replicate j (i, Proceed))
     = Some \<lparr>sem = c - j, lck = l, pcs = ps[i := A_Draining (k - j)]\<rparr>"
proof (induction j arbitrary: c k)
  case 0
  then show ?case by simp
next
  case (Suc j)
  from Suc.prems obtain k' c' where k: "k = Suc k'" and c: "c = Suc c'"
    by (cases k; cases c) auto
  with Suc.prems have "j \<le> k'" "j \<le> c'" by simp_all
  from Suc.IH [OF Suc.prems(1) this] Suc.prems(1) show ?case
    by (simp add: k c stepA_update Semaphore_acquire_def)
qed

lemma release_path:
  "i < length ps \<Longrightarrow> j \<le> k \<Longrightarrow>
   runA N \<lparr>sem = c, lck = l, pcs = ps[i := A_Releasing k]\<rparr> (replicate j (i, Proceed))
     = Some \<lparr>sem = c + j, lck = l, pcs = ps[i := A_Releasing (k - j)]\<rparr>"
proof (induction j arbitrary: c k)
  case 0
  then show ?case by simp
next
  case (Suc j)
  from Suc.prems obtain k' where k: "k = Suc k'"
    by (cases k) auto
  with Suc.prems have "j \<le> k'" by simp
  from Suc.IH [OF Suc.prems(1) this] Suc.prems(1) show ?case
    by (simp add: k stepA_update Semaphore_release_def)
qed

lemma writer_acquire_path:
  assumes i: "i < length (pcs g)" and idle: "pcs g ! i = A_Idle" and free: "\<not> lck g"
    and k: "k \<le> N" "k \<le> sem g"
  shows "runA N g ((i, BeginWrite) # replicate k (i, Proceed))
     = Some \<lparr>sem = sem g - k, lck = True, pcs = (pcs g)[i := A_Draining (N - k)]\<rparr>"
proof -
  have "stepA N g (i, BeginWrite) = Some \<lparr>sem = sem g, lck = True, pcs = (pcs g)[i := A_Draining N]\<rparr>"
    using i idle free by (simp add: stepA_def Lock_acquire_def)
  with drain_path [OF i k, of N True] show ?thesis
    by simp
qed

lemma writer_release_path:
  assumes i: "i < length (pcs g)" and w: "pcs g ! i = A_Writing" and k: "k \<le> N"
  shows "runA N g ((i, Proceed) # replicate k (i, Proceed))
     = Some \<lparr>sem = sem g + k, lck = lck g, pcs = (pcs g)[i := A_Releasing (N - k)]\<rparr>"
proof -
  have "stepA N g (i, Proceed) = Some \<lparr>sem = sem g, lck = lck g, pcs = (pcs g)[i := A_Releasing N]\<rparr>"
    using i w by (simp add: stepA_def)
  with release_path [OF i k, of N "sem g" "lck g"] show ?thesis
    by simp
qed

text \<open>
  Claim C8. \<^verbatim>\<open>acquire_write_lock\<close> returns exactly when the lock is free and the
  semaphore holds at least \<open>max_readers\<close> units, and then the lock is taken and the
  counter is lower by exactly \<open>max_readers\<close>; \<^verbatim>\<open>release_write_lock\<close> adds exactly
  \<open>max_readers\<close> units and frees the lock. From a gate at full capacity no unit is left
  after the acquire, so \<^verbatim>\<open>acquire_read_lock\<close> has to wait, and the release restores the
  full capacity. Step by step the writer takes the lock first and then one unit with
  each step (after \<open>k\<close> steps it holds \<open>k\<close> units), and on the way out gives back one
  unit with each step before it frees the lock. Under every interleaving with other
  threads the counter is 0 and the lock is taken while a writer is inside.
\<close>

theorem write_lock_algorithm:
  fixes s :: "'a sdb_scheme"
  shows "acquire_write_lock s =
       (if \<not> write_lock s \<and> max_readers s \<le> semaphore s
        then Some ((logging DEBUG ''Acquiring write lock.'' [] s)
                     \<lparr>write_lock := True, semaphore := semaphore s - max_readers s\<rparr>)
        else None)
    \<and> (write_lock s \<longrightarrow>
         release_write_lock s =
           (logging DEBUG ''Releasing write lock and read semaphores.'' [] s)
             \<lparr>semaphore := semaphore s + max_readers s, write_lock := False\<rparr>)
    \<and> (\<not> write_lock s \<and> semaphore s = max_readers s \<longrightarrow>
         (\<exists>s1. acquire_write_lock s = Some s1 \<and> write_lock s1 \<and> semaphore s1 = 0
            \<and> acquire_read_lock s1 = None
            \<and> semaphore (release_write_lock s1) = max_readers s
            \<and> \<not> write_lock (release_write_lock s1)))
    \<and> (i < length (pcs g) \<and> pcs g ! i = A_Idle \<and> \<not> lck g \<and> k \<le> N \<and> k \<le> sem g \<longrightarrow>
         runA N g ((i, BeginWrite) # replicate k (i, Proceed))
           = Some \<lparr>sem = sem g - k, lck = True, pcs = (pcs g)[i := A_Draining (N - k)]\<rparr>)
    \<and> (i < length (pcs g) \<and> pcs g ! i = A_Writing \<and> k \<le> N \<longrightarrow>
         runA N g ((i, Proceed) # replicate k (i, Proceed))
           = Some \<lparr>sem = sem g + k, lck = lck g, pcs = (pcs g)[i := A_Releasing (N - k)]\<rparr>)
    \<and> (runA N (initA N T) es = Some g' \<and> j < length (pcs g') \<and> pcs g' ! j = A_Writing \<longrightarrow>
         sem g' = 0 \<and> lck g')"
proof (intro conjI impI)
  show "acquire_write_lock s =
       (if \<not> write_lock s \<and> max_readers s \<le> semaphore s
        then Some ((logging DEBUG ''Acquiring write lock.'' [] s)
                     \<lparr>write_lock := True, semaphore := semaphore s - max_readers s\<rparr>)
        else None)"
    by (rule acquire_write_lock_eq)
  show "release_write_lock s =
           (logging DEBUG ''Releasing write lock and read semaphores.'' [] s)
             \<lparr>semaphore := semaphore s + max_readers s, write_lock := False\<rparr>" if "write_lock s"
    using that by (rule release_write_lock_eq)
  show "\<exists>s1. acquire_write_lock s = Some s1 \<and> write_lock s1 \<and> semaphore s1 = 0
            \<and> acquire_read_lock s1 = None
            \<and> semaphore (release_write_lock s1) = max_readers s
            \<and> \<not> write_lock (release_write_lock s1)"
    if "\<not> write_lock s \<and> semaphore s = max_readers s"
    using that
    by (simp add: acquire_write_lock_eq release_write_lock_eq acquire_read_lock_eq logging_def)
  show "runA N g ((i, BeginWrite) # replicate k (i, Proceed))
           = Some \<lparr>sem = sem g - k, lck = True, pcs = (pcs g)[i := A_Draining (N - k)]\<rparr>"
    if "i < length (pcs g) \<and> pcs g ! i = A_Idle \<and> \<not> lck g \<and> k \<le> N \<and> k \<le> sem g"
    using that writer_acquire_path [of i g k N] by blast
  show "runA N g ((i, Proceed) # replicate k (i, Proceed))
           = Some \<lparr>sem = sem g + k, lck = lck g, pcs = (pcs g)[i := A_Releasing (N - k)]\<rparr>"
    if "i < length (pcs g) \<and> pcs g ! i = A_Writing \<and> k \<le> N"
    using that writer_release_path [of i g k N] by blast
  assume r: "runA N (initA N T) es = Some g' \<and> j < length (pcs g') \<and> pcs g' ! j = A_Writing"
  then have "invA N g'"
    using runA_inv [OF invA_init] by blast
  from invA_exclusion [OF this] r show "sem g' = 0" and "lck g'"
    by blast+
qed

text \<open>
  Claim C1, amended. In both variants, for every number of threads and every
  interleaving of their steps from the initial gate, where each thread uses the gate as
  the public methods do (an acquire, later the matching release by the same thread):
  while a thread is inside a write operation no thread is inside a read operation and no
  other thread is inside a write operation; in the variant of \<^verbatim>\<open>winapi.py\<close> the field
  \<^verbatim>\<open>reader_count\<close> is then 0.
\<close>

theorem gate_mutual_exclusion:
  "(runA N (initA N T) es = Some g \<and> i < length (pcs g) \<and> pcs g ! i = A_Writing \<longrightarrow>
      (\<forall>j < length (pcs g). pcs g ! j \<noteq> A_Reading \<and> (pcs g ! j = A_Writing \<longrightarrow> j = i)))
   \<and> (runB (initB T') es' = Some h \<and> i' < length (pcsB h) \<and> pcsB h ! i' = B_Writing \<longrightarrow>
      rc h = 0
      \<and> (\<forall>j < length (pcsB h). pcsB h ! j \<noteq> B_Reading \<and> (pcsB h ! j = B_Writing \<longrightarrow> j = i')))"
proof (intro conjI impI)
  assume r: "runA N (initA N T) es = Some g \<and> i < length (pcs g) \<and> pcs g ! i = A_Writing"
  then have "invA N g"
    using runA_inv [OF invA_init] by blast
  from invA_exclusion [OF this] r
  show "\<forall>j < length (pcs g). pcs g ! j \<noteq> A_Reading \<and> (pcs g ! j = A_Writing \<longrightarrow> j = i)"
    by blast
next
  assume r: "runB (initB T') es' = Some h \<and> i' < length (pcsB h) \<and> pcsB h ! i' = B_Writing"
  then have "invB h"
    using runB_inv [OF invB_init] by blast
  from invB_exclusion [OF this] r
  show "rc h = 0"
    and "\<forall>j < length (pcsB h). pcsB h ! j \<noteq> B_Reading \<and> (pcsB h ! j = B_Writing \<longrightarrow> j = i')"
    by blast+
qed

lemmas gate_run_defs =
  stepA_def stepB_def initA_def initB_def Semaphore_acquire_def Semaphore_release_def
  Lock_acquire_def Lock_release_def Event_wait_def SetEvent_def Mutex_wait_def ReleaseMutex_def

theorem write_lock_algorithm_witness:
  "acquire_write_lock
      \<lparr>DB = [], logged = [], fs = \<lparr>content = None, readable = True, writable = True\<rparr>,
       mode = True, max_readers = 2, semaphore = 2, write_lock = False\<rparr>
    = Some \<lparr>DB = [], logged = [(DEBUG, ''Acquiring write lock.'', [])],
       fs = \<lparr>content = None, readable = True, writable = True\<rparr>,
       mode = True, max_readers = 2, semaphore = 0, write_lock = True\<rparr>
   \<and> acquire_read_lock
      \<lparr>DB = [], logged = [(DEBUG, ''Acquiring write lock.'', [])],
       fs = \<lparr>content = None, readable = True, writable = True\<rparr>,
       mode = True, max_readers = 2, semaphore = 0, write_lock = True\<rparr> = None
   \<and> release_write_lock
      \<lparr>DB = [], logged = [(DEBUG, ''Acquiring write lock.'', [])],
       fs = \<lparr>content = None, readable = True, writable = True\<rparr>,
       mode = True, max_readers = 2, semaphore = 0, write_lock = True\<rparr>
    = \<lparr>DB = [], logged = [(DEBUG, ''Acquiring write lock.'', []),
                           (DEBUG, ''Releasing write lock and read semaphores.'', [])],
       fs = \<lparr>content = None, readable = True, writable = True\<rparr>,
       mode = True, max_readers = 2, semaphore = 2, write_lock = False\<rparr>
   \<and> runA 2 (initA 2 2) [(0, BeginWrite), (0, Proceed)]
    = Some \<lparr>sem = 1, lck = True, pcs = [A_Draining 1, A_Idle]\<rparr>
   \<and> runA 2 (initA 2 2) [(0, BeginWrite), (0, Proceed), (0, Proceed), (0, Proceed)]
    = Some \<lparr>sem = 0, lck = True, pcs = [A_Writing, A_Idle]\<rparr>
   \<and> runA 2 \<lparr>sem = 0, lck = True, pcs = [A_Writing, A_Idle]\<rparr> [(0, Proceed), (0, Proceed), (0, Proceed)]
    = Some \<lparr>sem = 2, lck = True, pcs = [A_Releasing 0, A_Idle]\<rparr>"
proof -
  let ?s = "\<lparr>DB = [], logged = [], fs = \<lparr>content = None, readable = True, writable = True\<rparr>,
       mode = True, max_readers = 2, semaphore = 2, write_lock = False\<rparr>"
  let ?s1 = "\<lparr>DB = [], logged = [(DEBUG, ''Acquiring write lock.'', [])],
       fs = \<lparr>content = None, readable = True, writable = True\<rparr>,
       mode = True, max_readers = 2, semaphore = 0, write_lock = True\<rparr>"
  let ?es = "[(0 :: nat, BeginWrite), (0, Proceed), (0, Proceed), (0, Proceed)]"
  let ?g' = "\<lparr>sem = 0, lck = True, pcs = [A_Writing, A_Idle]\<rparr>"
  have run: "runA 2 (initA 2 2) ?es = Some ?g'"
    by (simp add: gate_run_defs numeral_2_eq_2)
  have a: "acquire_write_lock ?s = Some ?s1"
    using write_lock_algorithm [of ?s 0 "initA 2 2" 1 2 2 ?es ?g' 0]
    by (simp add: logging_def)
  have b: "acquire_read_lock ?s1 = None"
    by (simp add: acquire_read_lock_eq)
  have c: "release_write_lock ?s1
    = \<lparr>DB = [], logged = [(DEBUG, ''Acquiring write lock.'', []),
                           (DEBUG, ''Releasing write lock and read semaphores.'', [])],
       fs = \<lparr>content = None, readable = True, writable = True\<rparr>,
       mode = True, max_readers = 2, semaphore = 2, write_lock = False\<rparr>"
    using write_lock_algorithm [of ?s1 0 "initA 2 2" 1 2 2 ?es ?g' 0]
    by (simp add: logging_def)
  have d: "runA 2 (initA 2 2) [(0, BeginWrite), (0, Proceed)]
    = Some \<lparr>sem = 1, lck = True, pcs = [A_Draining 1, A_Idle]\<rparr>"
    using write_lock_algorithm [of ?s 0 "initA 2 2" 1 2 2 ?es ?g' 0]
    by (simp add: initA_def numeral_2_eq_2)
  have e: "runA 2 ?g' [(0, Proceed), (0, Proceed), (0, Proceed)]
    = Some \<lparr>sem = 2, lck = True, pcs = [A_Releasing 0, A_Idle]\<rparr>"
    using write_lock_algorithm [of ?s 0 ?g' 2 2 2 ?es ?g' 0]
    by (simp add: numeral_2_eq_2)
  from a b c d e run show ?thesis
    by blast
qed

theorem gate_mutual_exclusion_witness:
  "runA 1 (initA 1 2) [(0, BeginWrite), (0, Proceed), (0, Proceed)]
     = Some \<lparr>sem = 0, lck = True, pcs = [A_Writing, A_Idle]\<rparr>
   \<and> stepA 1 \<lparr>sem = 0, lck = True, pcs = [A_Writing, A_Idle]\<rparr> (1, BeginRead) = None
   \<and> stepA 1 \<lparr>sem = 0, lck = True, pcs = [A_Writing, A_Idle]\<rparr> (1, BeginWrite) = None
   \<and> runB (initB 2) [(0, BeginWrite), (0, Proceed)]
     = Some \<lparr>ev = False, mx = Some (0, 0), rc = 0, pcsB = [B_Writing, B_Idle]\<rparr>
   \<and> stepB \<lparr>ev = False, mx = Some (0, 0), rc = 0, pcsB = [B_Writing, B_Idle]\<rparr> (1, BeginRead) = None
   \<and> stepB \<lparr>ev = False, mx = Some (0, 0), rc = 0, pcsB = [B_Writing, B_Idle]\<rparr> (1, BeginWrite) = None
   \<and> [A_Writing, A_Idle] ! 1 \<noteq> A_Reading \<and> [B_Writing, B_Idle] ! 1 \<noteq> B_Reading"
proof -
  let ?g = "\<lparr>sem = 0, lck = True, pcs = [A_Writing, A_Idle]\<rparr>"
  let ?h = "\<lparr>ev = False, mx = Some (0, 0), rc = 0, pcsB = [B_Writing, B_Idle]\<rparr>"
  have a: "runA 1 (initA 1 2) [(0, BeginWrite), (0, Proceed), (0, Proceed)] = Some ?g"
    by (simp add: gate_run_defs numeral_2_eq_2)
  have b: "runB (initB 2) [(0, BeginWrite), (0, Proceed)] = Some ?h"
    by (simp add: gate_run_defs numeral_2_eq_2)
  from gate_mutual_exclusion [of 1 2 "[(0, BeginWrite), (0, Proceed), (0, Proceed)]" ?g 0
      2 "[(0, BeginWrite), (0, Proceed)]" ?h 0] a b
  have "pcs ?g ! 1 \<noteq> A_Reading" and "pcsB ?h ! 1 \<noteq> B_Reading"
    by simp_all
  with a b show ?thesis
    by (simp add: gate_run_defs)
qed

text \<open>
  Claim C1 as stated, for every sequence of gate operations, does not hold: the
  semaphore has no upper bound, so a \<^verbatim>\<open>release_read_semaphore\<close> that no acquire precedes
  adds a unit beyond \<open>max_readers\<close>. With \<open>max_readers = 1\<close>: after that release the
  writer 1 takes the lock and one unit and is inside, one unit is left, and the reader 2
  takes it and is inside as well.
\<close>

theorem gate_exclusion_counterexample:
  "gate_calls [(0, Release_read), (1, Acquire_write), (2, Acquire_read)]
      \<lparr>DB = [], logged = [], fs = \<lparr>content = None, readable = True, writable = True\<rparr>,
       mode = True, max_readers = 1, semaphore = 1, write_lock = False\<rparr>
    = Some \<lparr>DB = [],
        logged = [(DEBUG, ''Releasing read semaphore.'', []),
                  (DEBUG, ''Acquiring write lock.'', []),
                  (DEBUG, ''Acquiring read lock.'', [])],
        fs = \<lparr>content = None, readable = True, writable = True\<rparr>,
        mode = True, max_readers = 1, semaphore = 0, write_lock = True\<rparr>
   \<and> inside Acquire_write Release_write [(0, Release_read), (1, Acquire_write), (2, Acquire_read)] 1
   \<and> inside Acquire_read Release_read [(0, Release_read), (1, Acquire_write), (2, Acquire_read)] 2"
  by (simp add: acquire_read_lock_eq acquire_write_lock_eq release_read_semaphore_eq logging_def
      inside_def)

end
